theory Spec2Isabelle
  imports Main "HOL-Library.Sublist"
begin

section \<open>Strings and numbers of the TypeScript source\<close>

text \<open>
  A JavaScript string is modelled as a \<^typ>\<open>string\<close>: the list of the bytes of its UTF-8
  encoding, which is what \<^verbatim>\<open>writeFileSync\<close> puts on disk. A \<^verbatim>\<open>number\<close> that holds a port, an
  exit code or a counter is modelled as an \<^typ>\<open>int\<close> (as a \<^typ>\<open>nat\<close> for the counters that
  only count up from zero); the interfaces of the source declare them \<^verbatim>\<open>number\<close>, and the
  model covers the integer values below \<open>10\<^sup>2\<^sup>1\<close>, which a template literal prints in plain
  decimal notation.
\<close>

definition dq :: char where
  "dq = CHR 0x22"

definition nl :: string where
  "nl = [CHR 0x0A]"

definition quoted :: "string \<Rightarrow> string" where
  "quoted s = dq # s @ [dq]"

definition digit_char :: "nat \<Rightarrow> char" where
  "digit_char d = ''0123456789'' ! d"

fun nat_to_string :: "nat \<Rightarrow> string" where
  "nat_to_string n =
     (if n < 10 then [digit_char n] else nat_to_string (n div 10) @ [digit_char (n mod 10)])"

declare nat_to_string.simps [simp del]

text \<open>The text a template literal \<^verbatim>\<open>${n}\<close> produces for an integer \<open>n\<close>.\<close>

definition num_to_string :: "int \<Rightarrow> string" where
  "num_to_string i = (if i < 0 then CHR ''-'' # nat_to_string (nat (- i)) else nat_to_string (nat i))"

text \<open>\<^verbatim>\<open>Array.prototype.join\<close>.\<close>

fun join :: "string \<Rightarrow> string list \<Rightarrow> string" where
  "join sep [] = []"
| "join sep [x] = x"
| "join sep (x # y # ys) = x @ sep @ join sep (y # ys)"

text \<open>\<^verbatim>\<open>String.prototype.includes\<close>: the needle occurs as a contiguous piece of the string.\<close>

fun str_includes :: "string \<Rightarrow> string \<Rightarrow> bool" where
  "str_includes [] needle = (needle = [])"
| "str_includes (c # cs) needle = (prefix needle (c # cs) \<or> str_includes cs needle)"

text \<open>
  The code points that \<^verbatim>\<open>trim\<close> removes (the white space and the line terminators of
  ECMAScript: U+0009 to U+000D, U+0020, U+00A0, U+1680, U+2000 to U+200A, U+2028, U+2029,
  U+202F, U+205F, U+3000 and U+FEFF), each as the bytes of its UTF-8 encoding.
\<close>

definition whitespace :: "string list" where
  "whitespace =
     [[CHR 0x09], [CHR 0x0A], [CHR 0x0B], [CHR 0x0C], [CHR 0x0D], [CHR 0x20],
      [CHR 0xC2, CHR 0xA0],
      [CHR 0xE1, CHR 0x9A, CHR 0x80],
      [CHR 0xE2, CHR 0x80, CHR 0x80], [CHR 0xE2, CHR 0x80, CHR 0x81],
      [CHR 0xE2, CHR 0x80, CHR 0x82], [CHR 0xE2, CHR 0x80, CHR 0x83],
      [CHR 0xE2, CHR 0x80, CHR 0x84], [CHR 0xE2, CHR 0x80, CHR 0x85],
      [CHR 0xE2, CHR 0x80, CHR 0x86], [CHR 0xE2, CHR 0x80, CHR 0x87],
      [CHR 0xE2, CHR 0x80, CHR 0x88], [CHR 0xE2, CHR 0x80, CHR 0x89],
      [CHR 0xE2, CHR 0x80, CHR 0x8A],
      [CHR 0xE2, CHR 0x80, CHR 0xA8], [CHR 0xE2, CHR 0x80, CHR 0xA9],
      [CHR 0xE2, CHR 0x80, CHR 0xAF],
      [CHR 0xE2, CHR 0x81, CHR 0x9F],
      [CHR 0xE3, CHR 0x80, CHR 0x80],
      [CHR 0xEF, CHR 0xBB, CHR 0xBF]]"

text \<open>The length of the first token that the string starts with, or 0 when there is none.\<close>

definition token_length :: "string list \<Rightarrow> string \<Rightarrow> nat" where
  "token_length tokens s =
     (case filter (\<lambda>w. prefix w s) tokens of [] \<Rightarrow> 0 | w # ws \<Rightarrow> length w)"

text \<open>Taking tokens off the front of a string for as long as it starts with one.\<close>

function strip :: "string list \<Rightarrow> string \<Rightarrow> string" where
  "strip tokens s =
     (if token_length tokens s = 0 then s
      else strip tokens (drop (token_length tokens s) s))"
  by pat_completeness auto
termination
proof (relation "measure (\<lambda>(tokens, s). length s)")
  fix tokens :: "string list" and s :: string
  assume n: "token_length tokens s \<noteq> 0"
  then obtain w ws where f: "filter (\<lambda>w. prefix w s) tokens = w # ws" and w: "w \<noteq> []"
    by (auto simp: token_length_def split: list.splits)
  from f have "w \<in> set (filter (\<lambda>w. prefix w s) tokens)"
    by simp
  then have "prefix w s"
    by simp
  with w have "s \<noteq> []"
    by auto
  with n show "((tokens, drop (token_length tokens s) s), (tokens, s))
      \<in> measure (\<lambda>(tokens, s). length s)"
    by simp
qed simp

declare strip.simps [simp del]

text \<open>\<^verbatim>\<open>String.prototype.trim\<close>: white space goes from the front and from the end.\<close>

definition trim :: "string \<Rightarrow> string" where
  "trim s = rev (strip (map rev whitespace) (rev (strip whitespace s)))"

text \<open>\<^verbatim>\<open>split('\n')\<close>: the pieces between the line feeds; the empty string has one piece.\<close>

fun split_nl :: "string \<Rightarrow> string list" where
  "split_nl [] = [[]]"
| "split_nl (c # cs) =
     (if c = CHR 0x0A then [] # split_nl cs
      else (case split_nl cs of [] \<Rightarrow> [[c]] | x # xs \<Rightarrow> (c # x) # xs))"

text \<open>
  \<^verbatim>\<open>data.toString().trim().split('\n')\<close>, what both listeners of the output make of one
  chunk; the argument is the text \<^verbatim>\<open>data.toString()\<close>.
\<close>

definition chunk_lines :: "string \<Rightarrow> string list" where
  "chunk_lines data = split_nl (trim data)"

text \<open>\<^verbatim>\<open>Array.prototype.indexOf\<close>: the first index holding the value, or \<open>-1\<close>.\<close>

fun indexOf_from :: "int \<Rightarrow> 'a list \<Rightarrow> 'a \<Rightarrow> int" where
  "indexOf_from i [] v = - 1"
| "indexOf_from i (x # xs) v = (if x = v then i else indexOf_from (i + 1) xs v)"

definition indexOf :: "'a list \<Rightarrow> 'a \<Rightarrow> int" where
  "indexOf xs v = indexOf_from 0 xs v"

text \<open>
  \<^verbatim>\<open>[...new Set(xs)]\<close>: a Set keeps its elements in the order of their first insertion, and
  adding an element it already holds changes nothing.
\<close>

definition set_add :: "'a \<Rightarrow> 'a list \<Rightarrow> 'a list" where
  "set_add x acc = (if x \<in> set acc then acc else acc @ [x])"

definition new_Set :: "'a list \<Rightarrow> 'a list" where
  "new_Set xs = fold set_add xs []"

section \<open>Configuration: data model\<close>

text \<open>
  The interfaces \<^verbatim>\<open>Tunnel\<close> and \<^verbatim>\<open>AppConfig\<close> of \<^verbatim>\<open>config-manager.ts\<close>. The field \<^verbatim>\<open>id\<close> is
  named \<open>tid\<close> and the field \<^verbatim>\<open>type\<close> is named \<open>ttype\<close> here; the type \<^verbatim>\<open>'tcp'\<close> has the single
  value \<open>Tcp\<close>. The field \<^verbatim>\<open>enabled\<close> is declared \<^verbatim>\<open>boolean\<close>, so the source's test
  \<^verbatim>\<open>t.enabled !== false\<close> is the value of the field. A tunnel is a JavaScript object, and
  \<open>propertyOrder\<close> holds the names of its properties, each once, in the order in which
  the object received them, which is the order \<^verbatim>\<open>JSON.stringify\<close> prints them in. An object made by
  \<^verbatim>\<open>addTunnel\<close> from the form's \<^verbatim>\<open>{name, type, localIP, localPort, remotePort, enabled}\<close>
  by \<^verbatim>\<open>{...tunnel, id, enabled}\<close> has \<^verbatim>\<open>id\<close> as its last property.
\<close>

datatype TunnelType = Tcp

fun type_text :: "TunnelType \<Rightarrow> string" where
  "type_text Tcp = ''tcp''"

record Tunnel =
  tid :: string
  name :: string
  ttype :: TunnelType
  localIP :: string
  localPort :: int
  remotePort :: int
  enabled :: bool
  propertyOrder :: "string list"

record AppConfig =
  serverAddr :: string
  serverPort :: int
  authToken :: string
  remotePortMin :: int
  remotePortMax :: int
  autoStart :: bool
  tunnels :: "Tunnel list"

section \<open>ConfigManager.validateConfig\<close>

record Validation =
  valid :: bool
  errors :: "string list"

text \<open>
  \<^verbatim>\<open>remotePorts.filter((port, index) => remotePorts.indexOf(port) !== index)\<close>: the entries that
  are not the first occurrence of their value.
\<close>

definition duplicates :: "int list \<Rightarrow> int list" where
  "duplicates remotePorts =
     map fst (filter (\<lambda>(port, index). indexOf remotePorts port \<noteq> int index)
                     (zip remotePorts [0 ..< length remotePorts]))"

definition duplicate_prefix :: string where
  "duplicate_prefix = ''Duplicate remote ports: ''"

definition duplicate_error :: "int list \<Rightarrow> string" where
  "duplicate_error ds = duplicate_prefix @ join '', '' (map num_to_string ds)"

definition local_port_error :: "Tunnel \<Rightarrow> string" where
  "local_port_error tunnel =
     ''Tunnel '' @ quoted (name tunnel) @ '': local port must be between 1 and 65535''"

definition remote_port_error :: "Tunnel \<Rightarrow> string" where
  "remote_port_error tunnel =
     ''Tunnel '' @ quoted (name tunnel) @ '': remote port must be between 1 and 65535''"

text \<open>The body of the loop \<^verbatim>\<open>for (const tunnel of this.config.tunnels)\<close>, and the loop.\<close>

definition validate_tunnel :: "Tunnel \<Rightarrow> string list \<Rightarrow> string list" where
  "validate_tunnel tunnel errs =
     (let errs1 = (if localPort tunnel < 1 \<or> localPort tunnel > 65535
                   then errs @ [local_port_error tunnel] else errs)
      in if remotePort tunnel < 1 \<or> remotePort tunnel > 65535
         then errs1 @ [remote_port_error tunnel] else errs1)"

definition validate_tunnels :: "Tunnel list \<Rightarrow> string list \<Rightarrow> string list" where
  "validate_tunnels ts errs = fold validate_tunnel ts errs"

definition validateConfig :: "AppConfig \<Rightarrow> Validation" where
  "validateConfig c =
     (let errs0 = [];
          errs1 = (if serverAddr c = [] then errs0 @ [''Server address is required''] else errs0);
          errs2 = (if serverPort c = 0 \<or> serverPort c < 1 \<or> serverPort c > 65535
                   then errs1 @ [''Server port must be between 1 and 65535''] else errs1);
          errs3 = (if authToken c = [] then errs2 @ [''Auth token is required''] else errs2);
          remotePorts = map remotePort (tunnels c);
          dups = duplicates remotePorts;
          errs4 = (if length dups > 0 then errs3 @ [duplicate_error (new_Set dups)] else errs3);
          errs5 = validate_tunnels (tunnels c) errs4
      in \<lparr> valid = (length errs5 = 0), errors = errs5 \<rparr>)"

section \<open>ConfigManager.generateFrpcConfig\<close>

text \<open>The five lines pushed under the comment \<^verbatim>\<open>// Global settings\<close>.\<close>

definition global_lines :: "string \<Rightarrow> int \<Rightarrow> string \<Rightarrow> string list" where
  "global_lines addr port token =
     [''serverAddr = '' @ quoted addr,
      ''serverPort = '' @ num_to_string port,
      '''',
      ''auth.method = '' @ quoted ''token'',
      ''auth.token = '' @ quoted token]"

text \<open>The seven \<^verbatim>\<open>lines.push\<close> calls of the loop body, and the loop over the enabled tunnels.\<close>

definition push_proxy :: "Tunnel \<Rightarrow> string list \<Rightarrow> string list" where
  "push_proxy tunnel lines =
     lines @ [''''] @ [''[[proxies]]'']
       @ [''name = '' @ quoted (name tunnel)]
       @ [''type = '' @ quoted (type_text (ttype tunnel))]
       @ [''localIP = '' @ quoted (localIP tunnel)]
       @ [''localPort = '' @ num_to_string (localPort tunnel)]
       @ [''remotePort = '' @ num_to_string (remotePort tunnel)]"

definition frpcConfigLines :: "AppConfig \<Rightarrow> string list" where
  "frpcConfigLines c =
     (let lines = global_lines (serverAddr c) (serverPort c) (authToken c);
          enabledTunnels = filter enabled (tunnels c)
      in fold push_proxy enabledTunnels lines)"

definition generateFrpcConfig :: "AppConfig \<Rightarrow> string" where
  "generateFrpcConfig c = join nl (frpcConfigLines c)"

text \<open>The seven lines of the block of one tunnel.\<close>

definition proxy_block :: "Tunnel \<Rightarrow> string list" where
  "proxy_block tunnel =
     ['''',
      ''[[proxies]]'',
      ''name = '' @ quoted (name tunnel),
      ''type = '' @ quoted (type_text (ttype tunnel)),
      ''localIP = '' @ quoted (localIP tunnel),
      ''localPort = '' @ num_to_string (localPort tunnel),
      ''remotePort = '' @ num_to_string (remotePort tunnel)]"

section \<open>Settings.generateConfigPreview\<close>

text \<open>
  The twelve bullets \<^verbatim>\<open>U+2022\<close> of the source, each the three bytes \<open>E2 80 A2\<close> in UTF-8.
\<close>

definition bullet :: string where
  "bullet = [CHR 0xE2, CHR 0x80, CHR 0xA2]"

definition mask :: string where
  "mask = concat (replicate 12 bullet)"

text \<open>
  The preview reads \<^verbatim>\<open>showToken\<close>, \<^verbatim>\<open>serverAddr\<close>, \<^verbatim>\<open>serverPort\<close> and \<^verbatim>\<open>authToken\<close> from the
  state of the form and the tunnels from the \<^verbatim>\<open>config\<close> property.
\<close>

definition maskedToken :: "bool \<Rightarrow> string \<Rightarrow> string" where
  "maskedToken showToken token = (if showToken then token else (if token \<noteq> [] then mask else []))"

definition previewLines :: "bool \<Rightarrow> string \<Rightarrow> int \<Rightarrow> string \<Rightarrow> Tunnel list \<Rightarrow> string list" where
  "previewLines showToken addr port token ts =
     (let lines = global_lines addr port (maskedToken showToken token);
          enabledTunnels = filter enabled ts
      in fold push_proxy enabledTunnels lines)"

definition generateConfigPreview :: "bool \<Rightarrow> string \<Rightarrow> int \<Rightarrow> string \<Rightarrow> Tunnel list \<Rightarrow> string" where
  "generateConfigPreview showToken addr port token ts =
     join nl (previewLines showToken addr port token ts)"

section \<open>ConfigManager.exportConfig\<close>

text \<open>
  The values \<^verbatim>\<open>JSON.stringify\<close> is applied to, and \<^verbatim>\<open>JSON.stringify(value, null, 2)\<close> itself: an
  object keeps its properties in insertion order, each nesting level is indented by two
  more spaces, and an empty array or object is printed without a line break.
\<close>

datatype json =
    JNull
  | JBool bool
  | JNum int
  | JStr string
  | JArr "json list"
  | JObj "(string \<times> json) list"

definition bs :: char where
  "bs = CHR 0x5C"

definition hex_digit :: "nat \<Rightarrow> char" where
  "hex_digit d = ''0123456789abcdef'' ! d"

definition json_escape :: "char \<Rightarrow> string" where
  "json_escape ch =
     (if ch = dq then [bs, dq]
      else if ch = bs then [bs, bs]
      else if ch = CHR 0x08 then [bs, CHR ''b'']
      else if ch = CHR 0x09 then [bs, CHR ''t'']
      else if ch = CHR 0x0A then [bs, CHR ''n'']
      else if ch = CHR 0x0C then [bs, CHR ''f'']
      else if ch = CHR 0x0D then [bs, CHR ''r'']
      else if (of_char ch :: nat) < 32
        then [bs, CHR ''u'', CHR ''0'', CHR ''0'',
              hex_digit (of_char ch div 16), hex_digit (of_char ch mod 16)]
      else [ch])"

definition json_quote :: "string \<Rightarrow> string" where
  "json_quote s = dq # concat (map json_escape s) @ [dq]"

definition gap :: string where
  "gap = ''  ''"

fun stringify :: "string \<Rightarrow> json \<Rightarrow> string"
  and stringify_elements :: "string \<Rightarrow> json list \<Rightarrow> string list"
  and stringify_properties :: "string \<Rightarrow> (string \<times> json) list \<Rightarrow> string list"
where
  "stringify indent JNull = ''null''"
| "stringify indent (JBool b) = (if b then ''true'' else ''false'')"
| "stringify indent (JNum n) = num_to_string n"
| "stringify indent (JStr s) = json_quote s"
| "stringify indent (JArr xs) =
     (if xs = [] then ''[]''
      else ''['' @ nl @ indent @ gap
           @ join ('','' @ nl @ indent @ gap) (stringify_elements (indent @ gap) xs)
           @ nl @ indent @ '']'')"
| "stringify indent (JObj ps) =
     (if ps = [] then ''{}''
      else ''{'' @ nl @ indent @ gap
           @ join ('','' @ nl @ indent @ gap) (stringify_properties (indent @ gap) ps)
           @ nl @ indent @ ''}'')"
| "stringify_elements indent [] = []"
| "stringify_elements indent (x # xs) = stringify indent x # stringify_elements indent xs"
| "stringify_properties indent [] = []"
| "stringify_properties indent (p # ps) =
     (json_quote (fst p) @ '': '' @ stringify indent (snd p)) # stringify_properties indent ps"


text \<open>
  A tunnel as \<^verbatim>\<open>JSON.stringify\<close> sees it: its properties, in the order of the object.
\<close>

definition tunnel_property :: "Tunnel \<Rightarrow> string \<Rightarrow> json option" where
  "tunnel_property t k =
     (if k = ''id'' then Some (JStr (tid t))
      else if k = ''name'' then Some (JStr (name t))
      else if k = ''type'' then Some (JStr (type_text (ttype t)))
      else if k = ''localIP'' then Some (JStr (localIP t))
      else if k = ''localPort'' then Some (JNum (localPort t))
      else if k = ''remotePort'' then Some (JNum (remotePort t))
      else if k = ''enabled'' then Some (JBool (enabled t))
      else None)"

definition tunnel_json :: "Tunnel \<Rightarrow> json" where
  "tunnel_json t =
     JObj (concat (map (\<lambda>k. case tunnel_property t k of None \<Rightarrow> [] | Some v \<Rightarrow> [(k, v)])
                       (propertyOrder t)))"

definition exportData :: "AppConfig \<Rightarrow> json" where
  "exportData c =
     JObj [(''serverAddr'', JStr (serverAddr c)),
           (''serverPort'', JNum (serverPort c)),
           (''remotePortMin'', JNum (remotePortMin c)),
           (''remotePortMax'', JNum (remotePortMax c)),
           (''autoStart'', JBool (autoStart c)),
           (''tunnels'', JArr (map tunnel_json (tunnels c)))]"

definition exportConfig :: "AppConfig \<Rightarrow> string" where
  "exportConfig c = stringify [] (exportData c)"

section \<open>FrpcManager: state, effects and environment\<close>

text \<open>
  The fields of the class \<^verbatim>\<open>FrpcManager\<close>. The fields \<^verbatim>\<open>maxReconnectAttempts\<close> and
  \<^verbatim>\<open>reconnectDelay\<close> are initialised to 5 and 5000 and never assigned again, so they are
  constants here. Next to the fields, the state holds
  \<^item> \<open>connected\<close>: the variable \<^verbatim>\<open>let connected\<close> that the handlers of the current child
    process close over;
  \<^item> \<open>stopWaiters\<close>: the number of \<^verbatim>\<open>stop()\<close> calls whose \<^verbatim>\<open>once('exit')\<close> listener is
    registered on the current child process;
  \<^item> \<open>pendingTimers\<close>: the reconnect timeouts the runtime still holds (set, and neither
    cleared nor fired), by number; \<open>reconnectTimer\<close> is the number of the timeout the field
    references and \<open>nextTimer\<close> the number the next timeout gets;
  \<^item> \<open>trace\<close>: what the manager has done to the outside so far, oldest first.
  The effect \<open>ShowNotification\<close> records a call of the private method
  \<^verbatim>\<open>showNotification(title, body)\<close>, the notification event of the manager; whether the
  desktop can display it is a matter of Electron. The effect \<open>ReconnectTimerFired\<close> records
  that the runtime runs the callback of a reconnect timeout, which calls \<^verbatim>\<open>start()\<close>.
\<close>

datatype signal = SIGTERM | SIGKILL

datatype ChildProcess = ChildProcess string "string list"

datatype effect =
    Emit_log string
  | Emit_error string
  | Emit_status string
  | ShowNotification string string
  | WriteFile string string
  | Spawn string "string list"
  | SetReconnectTimer nat nat
  | ClearReconnectTimer nat
  | ReconnectTimerFired nat
  | SetKillTimer nat
  | ClearKillTimer
  | Kill signal
  | Resolve bool

record FrpcManager =
  process :: "ChildProcess option"
  lastError :: "string option"
  autoReconnect :: bool
  reconnectAttempts :: nat
  reconnectTimer :: "nat option"
  intentionallyStopped :: bool
  connected :: bool
  stopWaiters :: nat
  pendingTimers :: "nat list"
  nextTimer :: nat
  trace :: "effect list"

definition maxReconnectAttempts :: nat where
  "maxReconnectAttempts = 5"

definition reconnectDelay :: nat where
  "reconnectDelay = 5000"

text \<open>The manager as its constructor leaves it.\<close>

definition init :: FrpcManager where
  "init = \<lparr> process = None, lastError = None, autoReconnect = True, reconnectAttempts = 0,
            reconnectTimer = None, intentionallyStopped = False, connected = False,
            stopWaiters = 0, pendingTimers = [], nextTimer = 0, trace = [] \<rparr>"

text \<open>
  What a call of \<^verbatim>\<open>start()\<close> finds around it: the configuration the \<^verbatim>\<open>ConfigManager\<close> holds,
  the path of the file it writes, the files that exist, and whether \<^verbatim>\<open>writeFileSync\<close> or
  \<^verbatim>\<open>spawn\<close> throws (with the text of the error) or returns.
\<close>

record Env =
  config :: AppConfig
  frpcConfigPath :: string
  existsSync :: "string \<Rightarrow> bool"
  writeFileThrows :: "string option"
  spawnThrows :: "string option"

text \<open>The result of an \<^verbatim>\<open>async\<close> method as its caller sees it when the method returns.\<close>

datatype 'a promise = Resolved 'a | Rejected string | Pending

definition emit :: "effect \<Rightarrow> FrpcManager \<Rightarrow> FrpcManager" where
  "emit e s = s\<lparr>trace := trace s @ [e]\<rparr>"

text \<open>
  \<^verbatim>\<open>if (this.reconnectTimer) { clearTimeout(this.reconnectTimer); this.reconnectTimer = null }\<close>
\<close>

definition clearReconnectTimer :: "FrpcManager \<Rightarrow> FrpcManager" where
  "clearReconnectTimer s =
     (case reconnectTimer s of
        None \<Rightarrow> s
      | Some t \<Rightarrow> emit (ClearReconnectTimer t)
                    (s\<lparr>pendingTimers := removeAll t (pendingTimers s), reconnectTimer := None\<rparr>))"

text \<open>\<^verbatim>\<open>this.reconnectTimer = setTimeout(() => { this.start() }, delay)\<close>\<close>

definition setReconnectTimer :: "nat \<Rightarrow> FrpcManager \<Rightarrow> FrpcManager" where
  "setReconnectTimer delay s =
     emit (SetReconnectTimer (nextTimer s) delay)
       (s\<lparr>reconnectTimer := Some (nextTimer s),
          pendingTimers := pendingTimers s @ [nextTimer s],
          nextTimer := nextTimer s + 1\<rparr>)"

section \<open>FrpcManager.findFrpcBinary\<close>

definition locations :: "string list" where
  "locations = [''/usr/local/bin/frpc'', ''/usr/bin/frpc'', ''/opt/frp-gui/frpc/frpc'', ''frpc'']"

text \<open>The loop over the locations, and the \<^verbatim>\<open>return 'frpc'\<close> after it.\<close>

fun find_location :: "(string \<Rightarrow> bool) \<Rightarrow> string list \<Rightarrow> string option" where
  "find_location ex [] = Some ''frpc''"
| "find_location ex (loc # locs) =
     (if loc = ''frpc'' \<or> ex loc then Some loc else find_location ex locs)"

definition findFrpcBinary :: "(string \<Rightarrow> bool) \<Rightarrow> string option" where
  "findFrpcBinary ex = find_location ex locations"

section \<open>FrpcManager.handleDisconnect\<close>

text \<open>
  The delay is a multiple of 1000, so the quotient \<^verbatim>\<open>delay / 1000\<close> of the log line is the
  integer \<open>delay div 1000\<close>.
\<close>

definition max_attempts_log :: string where
  "max_attempts_log =
     ''[GUI] Max reconnect attempts ('' @ num_to_string (int maxReconnectAttempts) @ '') reached''"

definition reconnect_log :: "nat \<Rightarrow> nat \<Rightarrow> string" where
  "reconnect_log delay attempts =
     ''[GUI] Attempting reconnect in '' @ num_to_string (int (delay div 1000))
     @ ''s (attempt '' @ num_to_string (int attempts) @ ''/''
     @ num_to_string (int maxReconnectAttempts) @ '')''"

definition max_attempts_notification :: effect where
  "max_attempts_notification =
     ShowNotification ''FRP Reconnect Failed'' ''Max reconnection attempts reached''"

definition handleDisconnect :: "FrpcManager \<Rightarrow> FrpcManager" where
  "handleDisconnect s =
     (if intentionallyStopped s \<or> \<not> autoReconnect s then s
      else if reconnectAttempts s \<ge> maxReconnectAttempts then
        emit max_attempts_notification (emit (Emit_log max_attempts_log) s)
      else
        let s1 = s\<lparr>reconnectAttempts := reconnectAttempts s + 1\<rparr>;
            delay = reconnectDelay * reconnectAttempts s1;
            s2 = emit (Emit_log (reconnect_log delay (reconnectAttempts s1))) s1
        in setReconnectTimer delay s2)"

section \<open>FrpcManager.start and the handlers it registers\<close>

definition binary_not_found :: string where
  "binary_not_found = ''frpc binary not found. Please install FRP.''"

definition fail_with :: "string \<Rightarrow> FrpcManager \<Rightarrow> bool promise \<times> FrpcManager" where
  "fail_with msg s = (Resolved False, emit (Emit_error msg) (s\<lparr>lastError := Some msg\<rparr>))"

text \<open>The \<^verbatim>\<open>try\<close> block: \<^verbatim>\<open>spawn\<close> throws, or returns the child the handlers are put on.\<close>

definition try_spawn :: "Env \<Rightarrow> string \<Rightarrow> string \<Rightarrow> FrpcManager \<Rightarrow> bool promise \<times> FrpcManager" where
  "try_spawn env frpcPath configPath s =
     (case spawnThrows env of
        Some error \<Rightarrow> fail_with (''Failed to start frpc: '' @ error) s
      | None \<Rightarrow>
          let s1 = emit (Spawn frpcPath [''-c'', configPath])
                     (s\<lparr>process := Some (ChildProcess frpcPath [''-c'', configPath]),
                        connected := False\<rparr>);
              s2 = s1\<lparr>lastError := None\<rparr>
          in (Resolved True, emit (Emit_status ''running'') s2))"

definition start :: "Env \<Rightarrow> FrpcManager \<Rightarrow> bool promise \<times> FrpcManager" where
  "start env s =
     (if process s \<noteq> None then
        (Resolved True, emit (Emit_log ''[GUI] FRP client is already running'') s)
      else
        let s1 = clearReconnectTimer s;
            s2 = s1\<lparr>intentionallyStopped := False\<rparr>;
            validation = validateConfig (config env)
        in if \<not> valid validation then fail_with (join ''; '' (errors validation)) s2
           else
             case writeFileThrows env of
               Some error \<Rightarrow> (Rejected error, s2)
             | None \<Rightarrow>
                 let configPath = frpcConfigPath env;
                     s3 = emit (WriteFile configPath (generateFrpcConfig (config env))) s2;
                     s4 = emit (Emit_log (''[GUI] Config written to '' @ configPath)) s3
                 in case findFrpcBinary (existsSync env) of
                      None \<Rightarrow> fail_with binary_not_found s4
                    | Some frpcPath \<Rightarrow>
                        if frpcPath = [] then fail_with binary_not_found s4
                        else try_spawn env frpcPath configPath
                               (emit (Emit_log (''[GUI] Starting frpc from '' @ frpcPath)) s4))"

text \<open>
  The listener on \<^verbatim>\<open>stdout\<close>: the body of its loop, applied to one line, and the listener
  itself, applied to the text of one chunk. Nothing is kept from one chunk to the next, so
  a line of the process that arrives in two chunks is handled as two lines.
\<close>

definition is_success_line :: "string \<Rightarrow> bool" where
  "is_success_line line =
     (str_includes line ''login to server success'' \<or> str_includes line ''start proxy success'')"

definition connected_notification :: effect where
  "connected_notification =
     ShowNotification ''FRP Connected'' ''Successfully connected to FRP server''"

definition stdout_line :: "string \<Rightarrow> FrpcManager \<Rightarrow> FrpcManager" where
  "stdout_line line s =
     (let s1 = emit (Emit_log line) s
      in if is_success_line line then
           (if \<not> connected s1 then
              emit connected_notification (s1\<lparr>connected := True, reconnectAttempts := 0\<rparr>)
            else s1)
         else s1)"

definition stdout_data :: "string \<Rightarrow> FrpcManager \<Rightarrow> FrpcManager" where
  "stdout_data data s = fold stdout_line (chunk_lines data) s"

text \<open>The listener on \<^verbatim>\<open>stderr\<close>, on the text of one chunk.\<close>

definition stderr_data :: "string \<Rightarrow> FrpcManager \<Rightarrow> FrpcManager" where
  "stderr_data data s =
     fold (\<lambda>line. emit (Emit_log (''[ERR] '' @ line))) (chunk_lines data) s"

text \<open>The listener on the event \<^verbatim>\<open>error\<close> of the child process.\<close>

definition proc_error :: "string \<Rightarrow> FrpcManager \<Rightarrow> FrpcManager" where
  "proc_error message s =
     (let msg = ''Failed to start frpc: '' @ message;
          s1 = emit (Emit_error msg) (s\<lparr>lastError := Some msg\<rparr>);
          s2 = emit (Emit_status ''stopped'') (s1\<lparr>process := None\<rparr>)
      in handleDisconnect s2)"

text \<open>
  The listener on the event \<^verbatim>\<open>exit\<close> that \<^verbatim>\<open>start()\<close> registers; \<^verbatim>\<open>null\<close> is \<^const>\<open>None\<close>.
\<close>

definition null_or :: "('a \<Rightarrow> string) \<Rightarrow> 'a option \<Rightarrow> string" where
  "null_or f v = (case v of None \<Rightarrow> ''null'' | Some x \<Rightarrow> f x)"

definition disconnected_notification :: effect where
  "disconnected_notification =
     ShowNotification ''FRP Disconnected'' ''Connection to FRP server lost''"

definition start_on_exit :: "int option \<Rightarrow> string option \<Rightarrow> FrpcManager \<Rightarrow> FrpcManager" where
  "start_on_exit code sig s =
     (let s1 = (if code \<noteq> Some 0 \<and> code \<noteq> None
                then let msg = ''frpc exited with code '' @ null_or num_to_string code
                     in emit (Emit_error msg) (s\<lparr>lastError := Some msg\<rparr>)
                else s);
          s2 = emit (Emit_log (''[GUI] frpc exited (code: '' @ null_or num_to_string code
                               @ '', signal: '' @ null_or id sig @ '')'')) s1;
          s3 = emit (Emit_status ''stopped'') (s2\<lparr>process := None\<rparr>);
          s4 = (if connected s3 then emit disconnected_notification s3 else s3)
      in handleDisconnect s4)"

section \<open>FrpcManager.stop\<close>

text \<open>
  With a child process, \<^verbatim>\<open>stop()\<close> sets the kill timeout, registers its \<^verbatim>\<open>once('exit')\<close>
  listener, sends \<^verbatim>\<open>SIGTERM\<close> and returns a promise that is still pending. The test
  \<^verbatim>\<open>if (!this.process)\<close> inside the promise runs right after the same test outside of it and
  cannot succeed.
\<close>

definition stop :: "FrpcManager \<Rightarrow> bool promise \<times> FrpcManager" where
  "stop s =
     (let s1 = s\<lparr>intentionallyStopped := True\<rparr>;
          s2 = clearReconnectTimer s1
      in if process s2 = None then
           (Resolved True, emit (Emit_log ''[GUI] FRP client is not running'') s2)
         else
           let s3 = emit (Emit_log ''[GUI] Stopping frpc...'') s2;
               s4 = emit (SetKillTimer 5000) s3;
               s5 = s4\<lparr>stopWaiters := stopWaiters s4 + 1\<rparr>
           in (Pending, emit (Kill SIGTERM) s5))"

text \<open>The \<^verbatim>\<open>once('exit')\<close> listener of one \<^verbatim>\<open>stop()\<close> call, and its kill timeout.\<close>

definition stop_on_exit :: "FrpcManager \<Rightarrow> FrpcManager" where
  "stop_on_exit s =
     emit (Resolve True) (emit (Emit_status ''stopped'') ((emit ClearKillTimer s)\<lparr>process := None\<rparr>))"

definition kill_timeout :: "FrpcManager \<Rightarrow> FrpcManager" where
  "kill_timeout s =
     (if process s \<noteq> None
      then emit (Kill SIGKILL) (emit (Emit_log ''[GUI] Force killing frpc...'') s)
      else s)"

text \<open>
  The event \<^verbatim>\<open>exit\<close> of the child process runs the listener of \<^verbatim>\<open>start()\<close> first and then
  the listeners of the pending \<^verbatim>\<open>stop()\<close> calls, in the order of their registration.
\<close>

definition proc_exit :: "int option \<Rightarrow> string option \<Rightarrow> FrpcManager \<Rightarrow> FrpcManager" where
  "proc_exit code sig s =
     (let s1 = start_on_exit code sig s
      in ((stop_on_exit ^^ stopWaiters s1) s1)\<lparr>stopWaiters := 0\<rparr>)"

definition setAutoReconnect :: "bool \<Rightarrow> FrpcManager \<Rightarrow> FrpcManager" where
  "setAutoReconnect b s = s\<lparr>autoReconnect := b\<rparr>"

section \<open>The manager in its environment\<close>

text \<open>
  What can happen to a manager, one event at a time (a handler of the source runs to its
  end before the next one starts): a call of a public method by the operator, output or
  the end of the child process, and a timeout that fires. The method \<^verbatim>\<open>restart()\<close> is a call
  of \<^verbatim>\<open>stop()\<close> followed, once its promise has resolved, by a call of \<^verbatim>\<open>start()\<close>.
  \<^item> A child process emits one \<^verbatim>\<open>error\<close> event (the spawn failed) or one \<^verbatim>\<open>exit\<close> event,
    while the manager holds it. Such an event that arrives when the manager holds no
    process does not occur in a run; the step skips it.
  \<^item> Output of the child process may arrive at any moment, also after its \<^verbatim>\<open>exit\<close> event,
    and runs the listeners of the child spawned last, which have no test on the process.
    (Before the first spawn there is no listener; output there only adds runs.)
  \<^item> A reconnect timeout fires only while the runtime holds it; it then calls \<^verbatim>\<open>start()\<close>.
  \<^item> A kill timeout may fire at any moment (more often than the source allows, which only
    adds runs).
  \<^item> The \<^verbatim>\<open>once('exit')\<close> listeners of pending \<^verbatim>\<open>stop()\<close> calls hang on the child that
    emitted \<^verbatim>\<open>error\<close>; that child emits nothing further, so they never run.
\<close>

datatype event =
    Call_start Env
  | Call_stop
  | Call_setAutoReconnect bool
  | Stdout_data string
  | Stderr_data string
  | Proc_error string
  | Proc_exit "int option" "string option"
  | Reconnect_timer nat Env
  | Kill_timer

fun step :: "event \<Rightarrow> FrpcManager \<Rightarrow> FrpcManager" where
  "step (Call_start env) s = snd (start env s)"
| "step Call_stop s = snd (stop s)"
| "step (Call_setAutoReconnect b) s = setAutoReconnect b s"
| "step (Stdout_data data) s = stdout_data data s"
| "step (Stderr_data data) s = stderr_data data s"
| "step (Proc_error message) s =
     (if process s = None then s else (proc_error message s)\<lparr>stopWaiters := 0\<rparr>)"
| "step (Proc_exit code sig) s = (if process s = None then s else proc_exit code sig s)"
| "step (Reconnect_timer t env) s =
     (if t \<in> set (pendingTimers s)
      then snd (start env (emit (ReconnectTimerFired t)
                             (s\<lparr>pendingTimers := removeAll t (pendingTimers s)\<rparr>)))
      else s)"
| "step Kill_timer s = kill_timeout s"

definition run :: "event list \<Rightarrow> FrpcManager \<Rightarrow> FrpcManager" where
  "run es s = fold step es s"

text \<open>The calls of \<^verbatim>\<open>start()\<close> by the operator, as opposed to those by a timeout.\<close>

fun is_manual_start :: "event \<Rightarrow> bool" where
  "is_manual_start (Call_start env) = True"
| "is_manual_start e = False"

text \<open>Parts of a trace: the retries scheduled, the timeouts fired, the processes spawned.\<close>

fun scheduled_delay :: "effect \<Rightarrow> nat list" where
  "scheduled_delay (SetReconnectTimer t delay) = [delay]"
| "scheduled_delay e = []"

definition scheduled :: "effect list \<Rightarrow> nat list" where
  "scheduled tr = concat (map scheduled_delay tr)"

fun is_automatic_start :: "effect \<Rightarrow> bool" where
  "is_automatic_start (ReconnectTimerFired t) = True"
| "is_automatic_start e = False"

fun is_spawn :: "effect \<Rightarrow> bool" where
  "is_spawn (Spawn path args) = True"
| "is_spawn e = False"

section \<open>Notions used in the statements\<close>

text \<open>An error message starts like one of validation or of a failed spawn, not with \<open>f\<close>.\<close>

definition starts_like_error :: "string \<Rightarrow> bool" where
  "starts_like_error e = (e \<noteq> [] \<and> hd e \<noteq> CHR ''f'')"

text \<open>
  What the \<^verbatim>\<open>exit\<close> listener of \<^verbatim>\<open>start()\<close> emits before it calls \<^verbatim>\<open>handleDisconnect\<close>, and
  what the two first statements of \<^verbatim>\<open>stop()\<close> emit.
\<close>

definition exit_effects :: "int option \<Rightarrow> string option \<Rightarrow> bool \<Rightarrow> effect list" where
  "exit_effects code sig conn =
     (if code \<noteq> Some 0 \<and> code \<noteq> None
      then [Emit_error (''frpc exited with code '' @ null_or num_to_string code)] else [])
     @ [Emit_log (''[GUI] frpc exited (code: '' @ null_or num_to_string code
                               @ '', signal: '' @ null_or id sig @ '')''),
        Emit_status ''stopped'']
     @ (if conn then [disconnected_notification] else [])"

definition cancel_effects :: "FrpcManager \<Rightarrow> effect list" where
  "cancel_effects s = (case reconnectTimer s of None \<Rightarrow> [] | Some t \<Rightarrow> [ClearReconnectTimer t])"

text \<open>
  Every reconnect timeout the runtime holds is the one the field \<^verbatim>\<open>reconnectTimer\<close>
  references, and none is held while a child process is.
\<close>

definition timers_tracked :: "FrpcManager \<Rightarrow> bool" where
  "timers_tracked s =
     ((\<forall>t \<in> set (pendingTimers s). reconnectTimer s = Some t)
      \<and> (process s = None \<or> pendingTimers s = []))"

text \<open>The manager after an intentional stop: the flag is set and no retry is pending.\<close>

definition quiet :: "FrpcManager \<Rightarrow> bool" where
  "quiet s = (intentionallyStopped s \<and> pendingTimers s = [])"

text \<open>
  A string without a line feed, and a configuration whose rendered string fields (the
  server address, the auth token, and the name and local address of every enabled tunnel)
  are such strings.
\<close>

definition single_line :: "string \<Rightarrow> bool" where
  "single_line s = (CHR 0x0A \<notin> set s)"

definition single_line_fields :: "AppConfig \<Rightarrow> bool" where
  "single_line_fields c =
     (single_line (serverAddr c) \<and> single_line (authToken c)
      \<and> list_all (\<lambda>t. single_line (name t) \<and> single_line (localIP t))
                  (filter enabled (tunnels c)))"

section \<open>Example inputs\<close>

text \<open>
  Three tunnels that ask for the same remote port, the second of them disabled, each with
  the properties in the order \<^verbatim>\<open>addTunnel\<close> gives them, and a tunnel whose name holds
  a double quote and line feeds. Then a configuration around a list of tunnels whose
  server settings pass validation.
\<close>

definition addTunnel_order :: "string list" where
  "addTunnel_order =
     [''name'', ''type'', ''localIP'', ''localPort'', ''remotePort'', ''enabled'', ''id'']"

definition tunnel_web :: Tunnel where
  "tunnel_web = \<lparr> tid = ''t1'', name = ''web'', ttype = Tcp, localIP = ''127.0.0.1'',
                   localPort = 8080, remotePort = 6001, enabled = True,
                   propertyOrder = addTunnel_order \<rparr>"

definition tunnel_ssh_off :: Tunnel where
  "tunnel_ssh_off = \<lparr> tid = ''t2'', name = ''ssh'', ttype = Tcp, localIP = ''127.0.0.1'',
                       localPort = 22, remotePort = 6001, enabled = False,
                       propertyOrder = addTunnel_order \<rparr>"

definition tunnel_db :: Tunnel where
  "tunnel_db = \<lparr> tid = ''t3'', name = ''db'', ttype = Tcp, localIP = ''10.0.0.5'',
                  localPort = 5432, remotePort = 6001, enabled = True,
                  propertyOrder = addTunnel_order \<rparr>"

definition tunnel_two_blocks :: Tunnel where
  "tunnel_two_blocks =
     \<lparr> tid = ''t4'',
       name = ''a'' @ [dq] @ nl @ ''[[proxies]]'' @ nl @ ''name = '' @ [dq] @ ''b'',
       ttype = Tcp, localIP = ''127.0.0.1'', localPort = 80, remotePort = 6002,
       enabled = True, propertyOrder = addTunnel_order \<rparr>"

definition example_config :: "Tunnel list \<Rightarrow> AppConfig" where
  "example_config ts = \<lparr> serverAddr = ''frp.example.com'', serverPort = 7000,
     authToken = ''s3cret'', remotePortMin = 6000, remotePortMax = 6100, autoStart = False,
     tunnels = ts \<rparr>"

text \<open>
  A machine on which none of the three fixed locations exists, with a configuration file
  that can be written and a \<^verbatim>\<open>spawn\<close> that returns a child process.
\<close>

definition no_files :: "string \<Rightarrow> bool" where
  "no_files path = False"

definition example_env :: "AppConfig \<Rightarrow> Env" where
  "example_env c = \<lparr> config = c, frpcConfigPath = ''/home/user/.config/frp-gui/config/frpc.toml'',
     existsSync = no_files, writeFileThrows = None, spawnThrows = None \<rparr>"

text \<open>
  The manager after a first \<^verbatim>\<open>start()\<close> there, and a run of it: the process exits with code
  1 and the retry fires, five times over.
\<close>

definition running :: FrpcManager where
  "running = snd (start (example_env (example_config [])) init)"

definition crash_cycle :: "Env \<Rightarrow> nat \<Rightarrow> event list" where
  "crash_cycle env t = [Proc_exit (Some 1) None, Reconnect_timer t env]"

definition crashes :: "Env \<Rightarrow> nat \<Rightarrow> nat \<Rightarrow> event list" where
  "crashes env t k = concat (map (crash_cycle env) [t ..< t + k])"

definition five_crashes :: "event list" where
  "five_crashes = crashes (example_env (example_config [])) 0 5"

text \<open>
  Two chunks of output with three lines that carry a success marker, and the line
  \<open>login to server success\<close> of the process delivered in two chunks.
\<close>

definition example_output :: "string list" where
  "example_output =
     [''login to server success'' @ nl,
      ''[web] start proxy success'' @ nl @ ''login to server success'' @ nl]"

definition cut_output :: "string list" where
  "cut_output = [''login to server suc'', ''cess'' @ nl]"

section \<open>Validation: duplicate remote ports\<close>

subsection \<open>\<^verbatim>\<open>indexOf\<close>, the duplicates and the Set\<close>

lemma indexOf_from_notin: "v \<notin> set xs \<Longrightarrow> indexOf_from k xs v = - 1"
  by (induction xs arbitrary: k) auto

lemma indexOf_from_first:
  "j < length xs \<Longrightarrow> xs ! j \<notin> set (take j xs) \<Longrightarrow> indexOf_from k xs (xs ! j) = k + int j"
proof (induction xs arbitrary: k j)
  case Nil
  then show ?case by simp
next
  case (Cons x xs)
  show ?case
  proof (cases j)
    case 0
    then show ?thesis by simp
  next
    case (Suc j')
    with Cons.prems have "x \<noteq> xs ! j'" "j' < length xs" "xs ! j' \<notin> set (take j' xs)"
      by auto
    with Cons.IH [of j' "k + 1"] Suc show ?thesis by simp
  qed
qed

lemma indexOf_from_later:
  "j < length xs \<Longrightarrow> xs ! j \<in> set (take j xs) \<Longrightarrow> indexOf_from k xs (xs ! j) < k + int j"
proof (induction xs arbitrary: k j)
  case Nil
  then show ?case by simp
next
  case (Cons x xs)
  show ?case
  proof (cases j)
    case 0
    with Cons.prems show ?thesis by simp
  next
    case (Suc j')
    show ?thesis
    proof (cases "x = xs ! j'")
      case True
      with Suc show ?thesis by simp
    next
      case False
      with Cons.prems Suc have "j' < length xs" "xs ! j' \<in> set (take j' xs)"
        by auto
      with Cons.IH [of j' "k + 1"] Suc False show ?thesis by simp
    qed
  qed
qed

lemma indexOf_neq_iff:
  "j < length xs \<Longrightarrow> (indexOf xs (xs ! j) \<noteq> int j) = (xs ! j \<in> set (take j xs))"
  using indexOf_from_first [of j xs 0] indexOf_from_later [of j xs 0]
  by (auto simp: indexOf_def)

lemma duplicates_nth:
  "duplicates xs = map fst (filter (\<lambda>(p, i). p \<in> set (take i xs)) (zip xs [0 ..< length xs]))"
proof -
  have "filter (\<lambda>(port, index). indexOf xs port \<noteq> int index) (zip xs [0 ..< length xs])
      = filter (\<lambda>(p, i). p \<in> set (take i xs)) (zip xs [0 ..< length xs])"
  proof (rule filter_cong [OF refl])
    fix x assume "x \<in> set (zip xs [0 ..< length xs])"
    then obtain i where i: "i < length xs" "x = (xs ! i, i)"
      by (auto simp: set_zip)
    show "(case x of (port, index) \<Rightarrow> indexOf xs port \<noteq> int index)
        = (case x of (p, i) \<Rightarrow> p \<in> set (take i xs))"
      using indexOf_neq_iff [of i xs] i by simp
  qed
  then show ?thesis by (simp add: duplicates_def)
qed

lemma in_take_iff: "j \<le> length xs \<Longrightarrow> (p \<in> set (take j xs)) = (\<exists>i<j. xs ! i = p)"
  by (auto simp: in_set_conv_nth)

lemma set_duplicates:
  "set (duplicates xs) = {p. \<exists>i j. i < j \<and> j < length xs \<and> xs ! i = p \<and> xs ! j = p}"
proof (rule set_eqI)
  fix p
  have "(p \<in> set (duplicates xs)) = (\<exists>j<length xs. xs ! j = p \<and> p \<in> set (take j xs))"
    by (force simp: duplicates_nth set_zip)
  also have "\<dots> = (\<exists>j<length xs. xs ! j = p \<and> (\<exists>i<j. xs ! i = p))"
    using in_take_iff [of _ xs p] by (metis less_imp_le_nat)
  also have "\<dots> = (p \<in> {p. \<exists>i j. i < j \<and> j < length xs \<and> xs ! i = p \<and> xs ! j = p})"
    by auto
  finally show "(p \<in> set (duplicates xs))
      = (p \<in> {p. \<exists>i j. i < j \<and> j < length xs \<and> xs ! i = p \<and> xs ! j = p})" .
qed

lemma duplicates_empty: "(duplicates xs = []) = distinct xs"
proof -
  have "(duplicates xs = []) = (set (duplicates xs) = {})" by simp
  also have "\<dots> = distinct xs"
    unfolding set_duplicates distinct_conv_nth
    by (auto; metis nat_neq_iff)
  finally show ?thesis .
qed

lemma set_add_distinct: "distinct acc \<Longrightarrow> distinct (set_add x acc)"
  by (simp add: set_add_def)

lemma set_set_add: "set (set_add x acc) = insert x (set acc)"
  by (auto simp: set_add_def)

lemma fold_set_add: "distinct acc \<Longrightarrow> distinct (fold set_add xs acc) \<and> set (fold set_add xs acc) = set xs \<union> set acc"
  by (induction xs arbitrary: acc) (auto simp: set_add_distinct set_set_add)

lemma new_Set_distinct: "distinct (new_Set xs)" and set_new_Set: "set (new_Set xs) = set xs"
  using fold_set_add [of "[]" xs] by (simp_all add: new_Set_def)

lemma filter_validate_tunnel:
  "filter (prefix duplicate_prefix) (validate_tunnel t errs) = filter (prefix duplicate_prefix) errs"
  by (simp add: validate_tunnel_def Let_def local_port_error_def remote_port_error_def duplicate_prefix_def)

lemma filter_validate_tunnels:
  "filter (prefix duplicate_prefix) (validate_tunnels ts errs) = filter (prefix duplicate_prefix) errs"
  unfolding validate_tunnels_def
  by (induction ts arbitrary: errs) (simp_all add: filter_validate_tunnel)

lemma dup_errors_validateConfig:
  "filter (prefix duplicate_prefix) (errors (validateConfig c)) =
     (if distinct (map remotePort (tunnels c)) then []
      else [duplicate_error (new_Set (duplicates (map remotePort (tunnels c))))])"
proof -
  have p: "prefix duplicate_prefix (duplicate_error ds)" for ds
    by (simp add: duplicate_error_def)
  have q: "\<not> prefix duplicate_prefix ''Server address is required''"
     "\<not> prefix duplicate_prefix ''Server port must be between 1 and 65535''"
     "\<not> prefix duplicate_prefix ''Auth token is required''"
    by (simp_all add: duplicate_prefix_def)
  show ?thesis
    by (simp add: validateConfig_def Let_def filter_validate_tunnels p q duplicates_empty)
qed

subsection \<open>Evaluation of the examples\<close>

lemmas eval_defs = validateConfig_def example_config_def tunnel_web_def tunnel_ssh_off_def tunnel_db_def
      duplicates_def indexOf_def new_Set_def set_add_def duplicate_error_def duplicate_prefix_def
      num_to_string_def nat_to_string.simps digit_char_def validate_tunnels_def validate_tunnel_def

subsection \<open>The duplicate-port error\<close>

lemma validate_tunnels_enabled:
  "validate_tunnels (map (enabled_update f) ts) errs = validate_tunnels ts errs"
  unfolding validate_tunnels_def
  by (induction ts arbitrary: errs)
     (simp_all add: validate_tunnel_def local_port_error_def remote_port_error_def)

text \<open>
  C1, as the code has it. \<^const>\<open>validateConfig\<close> takes the remote ports of all tunnels, whatever
  their \<^const>\<open>enabled\<close> flag. It reports an error that starts with \<^const>\<open>duplicate_prefix\<close>
  exactly when two tunnels of the list have the same remote port; there is then exactly one
  such error, and the ports it names are pairwise distinct and are exactly the ports that
  two tunnels share, so a port that three tunnels ask for is named once. Changing the
  \<^const>\<open>enabled\<close> flags of the tunnels does not change the result of the validation.
\<close>

theorem validate_duplicate_ports:
  "((\<exists>e \<in> set (errors (validateConfig c)). prefix duplicate_prefix e)
      = (\<not> distinct (map remotePort (tunnels c))))
   \<and> (\<not> distinct (map remotePort (tunnels c)) \<longrightarrow>
        (\<exists>ds. filter (prefix duplicate_prefix) (errors (validateConfig c)) = [duplicate_error ds]
           \<and> distinct ds
           \<and> set ds = {p. \<exists>i j. i < j \<and> j < length (tunnels c)
                           \<and> remotePort (tunnels c ! i) = p \<and> remotePort (tunnels c ! j) = p}))
   \<and> validateConfig (c\<lparr>tunnels := map (enabled_update f) (tunnels c)\<rparr>) = validateConfig c"
proof (intro conjI impI)
  let ?ports = "map remotePort (tunnels c)"
  let ?found = "filter (prefix duplicate_prefix) (errors (validateConfig c))"
  have "(\<exists>e \<in> set (errors (validateConfig c)). prefix duplicate_prefix e) = (?found \<noteq> [])"
    by (simp add: filter_empty_conv)
  also have "\<dots> = (\<not> distinct ?ports)"
    by (simp add: dup_errors_validateConfig)
  finally show "(\<exists>e \<in> set (errors (validateConfig c)). prefix duplicate_prefix e)
      = (\<not> distinct ?ports)" .
next
  let ?ports = "map remotePort (tunnels c)"
  let ?ds = "new_Set (duplicates ?ports)"
  assume nd: "\<not> distinct ?ports"
  have "set ?ds = {p. \<exists>i j. i < j \<and> j < length (tunnels c)
                           \<and> remotePort (tunnels c ! i) = p \<and> remotePort (tunnels c ! j) = p}"
    unfolding set_new_Set set_duplicates
    by (rule Collect_cong) (metis (no_types, lifting) length_map less_trans nth_map)
  with nd show "\<exists>ds. filter (prefix duplicate_prefix) (errors (validateConfig c)) = [duplicate_error ds]
           \<and> distinct ds
           \<and> set ds = {p. \<exists>i j. i < j \<and> j < length (tunnels c)
                           \<and> remotePort (tunnels c ! i) = p \<and> remotePort (tunnels c ! j) = p}"
    by (intro exI [of _ ?ds]) (simp add: dup_errors_validateConfig new_Set_distinct)
next
  show "validateConfig (c\<lparr>tunnels := map (enabled_update f) (tunnels c)\<rparr>) = validateConfig c"
    by (simp add: validateConfig_def validate_tunnels_enabled comp_def)
qed

theorem validate_duplicate_ports_witness:
  "\<not> distinct (map remotePort (tunnels (example_config [tunnel_web, tunnel_ssh_off, tunnel_db])))
   \<and> (\<exists>e \<in> set (errors (validateConfig (example_config [tunnel_web, tunnel_ssh_off, tunnel_db]))).
         prefix duplicate_prefix e)
   \<and> filter (prefix duplicate_prefix)
        (errors (validateConfig (example_config [tunnel_web, tunnel_ssh_off, tunnel_db])))
      = [''Duplicate remote ports: 6001'']"
proof -
  let ?c = "example_config [tunnel_web, tunnel_ssh_off, tunnel_db]"
  have h: "\<not> distinct (map remotePort (tunnels ?c))"
    by (simp add: eval_defs)
  have v: "filter (prefix duplicate_prefix) (errors (validateConfig ?c))
      = [''Duplicate remote ports: 6001'']"
    by (simp add: eval_defs)
  from validate_duplicate_ports [of ?c] h
  have "\<exists>e \<in> set (errors (validateConfig ?c)). prefix duplicate_prefix e"
    by blast
  with h v show ?thesis by simp
qed

text \<open>
  C1 as the claim words it fails: the tunnels \<^const>\<open>tunnel_web\<close> (enabled) and
  \<^const>\<open>tunnel_ssh_off\<close> (disabled) both have remote port 6001. Only one enabled tunnel uses that
  port, and the validation reports the duplicate all the same.
\<close>

theorem validate_duplicate_ports_counterexample:
  "errors (validateConfig (example_config [tunnel_web, tunnel_ssh_off]))
     = [''Duplicate remote ports: 6001'']
   \<and> map remotePort (filter enabled (tunnels (example_config [tunnel_web, tunnel_ssh_off]))) = [6001]"
  by (simp add: eval_defs)

section \<open>Rendering: the configuration file\<close>

lemma push_proxy_block: "push_proxy tunnel lines = lines @ proxy_block tunnel"
  by (simp add: push_proxy_def proxy_block_def)

lemma fold_push_proxy: "fold push_proxy ts lines = lines @ concat (map proxy_block ts)"
  by (induction ts arbitrary: lines) (simp_all add: push_proxy_block)

lemma frpcConfigLines_blocks:
  "frpcConfigLines c = global_lines (serverAddr c) (serverPort c) (authToken c)
                       @ concat (map proxy_block (filter enabled (tunnels c)))"
  by (simp add: frpcConfigLines_def fold_push_proxy)

lemma previewLines_blocks:
  "previewLines showToken addr port token ts =
     global_lines addr port (maskedToken showToken token)
     @ concat (map proxy_block (filter enabled ts))"
  by (simp add: previewLines_def fold_push_proxy)

lemma count_header_global: "count_list (global_lines addr port token) ''[[proxies]]'' = 0"
  by (simp add: global_lines_def)

lemma count_header_block: "count_list (proxy_block tunnel) ''[[proxies]]'' = 1"
  by (simp add: proxy_block_def)

lemma count_header_blocks:
  "count_list (concat (map proxy_block ts)) ''[[proxies]]'' = length ts"
  by (induction ts) (simp_all add: count_header_block)

lemma type_text_tcp: "type_text ty = ''tcp''"
  by (cases ty) simp

subsection \<open>The rendered text read line by line\<close>

lemma split_nl_single: "single_line x \<Longrightarrow> split_nl x = [x]"
  by (induction x) (auto simp: single_line_def)

lemma split_nl_line: "single_line x \<Longrightarrow> split_nl (x @ nl @ rest) = x # split_nl rest"
  by (induction x) (auto simp: single_line_def nl_def)

lemma split_nl_join:
  "xs \<noteq> [] \<Longrightarrow> list_all single_line xs \<Longrightarrow> split_nl (join nl xs) = xs"
proof (induction nl xs rule: join.induct)
  case 1
  then show ?case by simp
next
  case (2 x)
  then show ?case by (simp add: split_nl_single)
next
  case (3 x y ys)
  then show ?case by (simp add: split_nl_line)
qed

lemma digit_char_single: "d < 10 \<Longrightarrow> single_line [digit_char d]"
proof -
  assume "d < 10"
  then have "d \<in> {0, 1, 2, 3, 4, 5, 6, 7, 8, 9}" by auto
  then show ?thesis by (auto simp: digit_char_def single_line_def)
qed

lemma single_line_append: "single_line (xs @ ys) = (single_line xs \<and> single_line ys)"
  by (auto simp: single_line_def)

lemma nat_to_string_single: "single_line (nat_to_string n)"
proof (induction n rule: nat_to_string.induct)
  case (1 n)
  show ?case
  proof (cases "n < 10")
    case True
    then show ?thesis
      by (subst nat_to_string.simps) (simp add: digit_char_single)
  next
    case False
    with "1" have "single_line (nat_to_string (n div 10))" by simp
    with False show ?thesis
      by (subst nat_to_string.simps) (simp add: single_line_append digit_char_single)
  qed
qed

lemma num_to_string_single: "single_line (num_to_string i)"
  using nat_to_string_single [of "nat i"] nat_to_string_single [of "nat (- i)"]
  by (simp add: num_to_string_def single_line_def)

lemma single_line_simps:
  "single_line []"
  "single_line (c # cs) = (c \<noteq> CHR 0x0A \<and> single_line cs)"
  "single_line (xs @ ys) = (single_line xs \<and> single_line ys)"
  "single_line (quoted x) = single_line x"
  by (auto simp: single_line_def quoted_def dq_def)

lemma global_lines_single:
  "single_line addr \<Longrightarrow> single_line token \<Longrightarrow> list_all single_line (global_lines addr port token)"
  by (simp add: global_lines_def single_line_simps num_to_string_single)

lemma proxy_block_single:
  "single_line (name t) \<Longrightarrow> single_line (localIP t) \<Longrightarrow> list_all single_line (proxy_block t)"
  by (simp add: proxy_block_def single_line_simps num_to_string_single type_text_tcp)

lemma proxy_blocks_single:
  "list_all (\<lambda>t. single_line (name t) \<and> single_line (localIP t)) ts \<Longrightarrow>
     list_all single_line (concat (map proxy_block ts))"
  by (induction ts) (simp_all add: proxy_block_single)

lemma frpcConfigLines_single:
  "single_line_fields c \<Longrightarrow> list_all single_line (frpcConfigLines c)"
  by (simp add: single_line_fields_def frpcConfigLines_blocks global_lines_single
      proxy_blocks_single)

lemma frpcConfigLines_nonempty: "frpcConfigLines c \<noteq> []"
  by (simp add: frpcConfigLines_blocks global_lines_def)

text \<open>
  C5, as the code has it. The text \<^const>\<open>generateFrpcConfig\<close> returns is the five lines of
  the global section (server address, server port, an empty line, the auth method
  \<open>token\<close>, the auth token) followed, for each tunnel with \<^const>\<open>enabled\<close> set and in the
  order of the list, by the seven lines of its block (an empty line, the header, name,
  type, localIP, localPort, remotePort), all joined by line feeds; the strings are put
  between double quotes as they are. Removing the disabled tunnels from the configuration
  leaves the text unchanged: nothing of a disabled tunnel reaches the output. When no
  rendered string field holds a line feed, the text read line by line is these lines, with
  one \<open>[[proxies]]\<close> header for each enabled tunnel.
\<close>

theorem render_enabled_tunnels:
  "generateFrpcConfig c =
     join nl
       ([''serverAddr = '' @ quoted (serverAddr c),
         ''serverPort = '' @ num_to_string (serverPort c),
         '''',
         ''auth.method = '' @ quoted ''token'',
         ''auth.token = '' @ quoted (authToken c)]
        @ concat (map (\<lambda>t. ['''',
                             ''[[proxies]]'',
                             ''name = '' @ quoted (name t),
                             ''type = '' @ quoted ''tcp'',
                             ''localIP = '' @ quoted (localIP t),
                             ''localPort = '' @ num_to_string (localPort t),
                             ''remotePort = '' @ num_to_string (remotePort t)])
                      (filter enabled (tunnels c))))
   \<and> generateFrpcConfig (c\<lparr>tunnels := filter enabled (tunnels c)\<rparr>) = generateFrpcConfig c
   \<and> (single_line_fields c \<longrightarrow>
        split_nl (generateFrpcConfig c) = frpcConfigLines c
        \<and> count_list (split_nl (generateFrpcConfig c)) ''[[proxies]]''
            = length (filter enabled (tunnels c)))"
proof (intro conjI impI)
  have "proxy_block = (\<lambda>t. ['''',
                             ''[[proxies]]'',
                             ''name = '' @ quoted (name t),
                             ''type = '' @ quoted ''tcp'',
                             ''localIP = '' @ quoted (localIP t),
                             ''localPort = '' @ num_to_string (localPort t),
                             ''remotePort = '' @ num_to_string (remotePort t)])"
    by (rule ext) (simp add: proxy_block_def type_text_tcp)
  then show "generateFrpcConfig c =
     join nl
       ([''serverAddr = '' @ quoted (serverAddr c),
         ''serverPort = '' @ num_to_string (serverPort c),
         '''',
         ''auth.method = '' @ quoted ''token'',
         ''auth.token = '' @ quoted (authToken c)]
        @ concat (map (\<lambda>t. ['''',
                             ''[[proxies]]'',
                             ''name = '' @ quoted (name t),
                             ''type = '' @ quoted ''tcp'',
                             ''localIP = '' @ quoted (localIP t),
                             ''localPort = '' @ num_to_string (localPort t),
                             ''remotePort = '' @ num_to_string (remotePort t)])
                      (filter enabled (tunnels c))))"
    by (simp add: generateFrpcConfig_def frpcConfigLines_blocks global_lines_def)
next
  show "generateFrpcConfig (c\<lparr>tunnels := filter enabled (tunnels c)\<rparr>) = generateFrpcConfig c"
    by (simp add: generateFrpcConfig_def frpcConfigLines_def)
next
  assume f: "single_line_fields c"
  show l: "split_nl (generateFrpcConfig c) = frpcConfigLines c"
    unfolding generateFrpcConfig_def
    by (rule split_nl_join [OF frpcConfigLines_nonempty frpcConfigLines_single [OF f]])
  show "count_list (split_nl (generateFrpcConfig c)) ''[[proxies]]''
            = length (filter enabled (tunnels c))"
    unfolding l
    by (simp add: frpcConfigLines_blocks count_header_global count_header_blocks)
qed

lemmas render_defs = generateFrpcConfig_def frpcConfigLines_def global_lines_def push_proxy_def
  example_config_def tunnel_web_def tunnel_ssh_off_def tunnel_db_def tunnel_two_blocks_def
  num_to_string_def nat_to_string.simps digit_char_def quoted_def dq_def nl_def

text \<open>
  C5 as the claim words it fails: the one enabled tunnel \<^const>\<open>tunnel_two_blocks\<close>, whose name
  holds a double quote and line feeds, is rendered as a text with two \<open>[[proxies]]\<close>
  headers.
\<close>

theorem render_enabled_tunnels_counterexample:
  "length (filter enabled (tunnels (example_config [tunnel_two_blocks]))) = 1
   \<and> count_list (split_nl (generateFrpcConfig (example_config [tunnel_two_blocks])))
        ''[[proxies]]'' = 2"
  by (simp add: render_defs)

theorem render_enabled_tunnels_witness:
  "single_line_fields (example_config [tunnel_web, tunnel_ssh_off, tunnel_db])
   \<and> length (filter enabled (tunnels (example_config [tunnel_web, tunnel_ssh_off, tunnel_db]))) = 2
   \<and> count_list (split_nl (generateFrpcConfig (example_config [tunnel_web, tunnel_ssh_off, tunnel_db])))
        ''[[proxies]]'' = 2"
proof -
  let ?c = "example_config [tunnel_web, tunnel_ssh_off, tunnel_db]"
  have h: "single_line_fields ?c"
    by (simp add: single_line_fields_def single_line_def example_config_def tunnel_web_def
        tunnel_ssh_off_def tunnel_db_def)
  have n: "length (filter enabled (tunnels ?c)) = 2"
    by (simp add: example_config_def tunnel_web_def tunnel_ssh_off_def tunnel_db_def)
  from render_enabled_tunnels [of ?c] h
  have "count_list (split_nl (generateFrpcConfig ?c)) ''[[proxies]]''
      = length (filter enabled (tunnels ?c))"
    by blast
  with h n show ?thesis
    by simp
qed

text \<open>The lines rendered for the three example tunnels: the disabled one is left out.\<close>

lemma render_example:
  "frpcConfigLines (example_config [tunnel_web, tunnel_ssh_off, tunnel_db]) =
     [''serverAddr = '' @ quoted ''frp.example.com'',
      ''serverPort = 7000'',
      '''',
      ''auth.method = '' @ quoted ''token'',
      ''auth.token = '' @ quoted ''s3cret'',
      '''',
      ''[[proxies]]'',
      ''name = '' @ quoted ''web'',
      ''type = '' @ quoted ''tcp'',
      ''localIP = '' @ quoted ''127.0.0.1'',
      ''localPort = 8080'',
      ''remotePort = 6001'',
      '''',
      ''[[proxies]]'',
      ''name = '' @ quoted ''db'',
      ''type = '' @ quoted ''tcp'',
      ''localIP = '' @ quoted ''10.0.0.5'',
      ''localPort = 5432'',
      ''remotePort = 6001'']"
  by (simp add: frpcConfigLines_def global_lines_def push_proxy_def example_config_def
      tunnel_web_def tunnel_ssh_off_def tunnel_db_def num_to_string_def nat_to_string.simps
      digit_char_def)

section \<open>Rendering: the preview\<close>

lemma global_lines_token:
  "global_lines addr port token = (global_lines addr port token')[4 := ''auth.token = '' @ quoted token]"
  by (simp add: global_lines_def)

lemma length_global_lines: "length (global_lines addr port token) = 5"
  by (simp add: global_lines_def)

text \<open>
  C6, as the code has it. With the show-token toggle off, the array of lines of the preview
  is the array of lines of the authoritative rendering with the line at index 4 replaced by
  the auth token line holding \<^const>\<open>mask\<close> when the secret is not empty and nothing when it is
  empty; every other line is the same. The preview of two configurations that differ in
  their non-empty secrets only is the same text, so the secret does not flow into it. With
  the toggle on, the preview is the authoritative rendering, secret included.
\<close>

theorem preview_masks_token:
  "previewLines False (serverAddr c) (serverPort c) (authToken c) (tunnels c)
     = (frpcConfigLines c)[4 := ''auth.token = '' @ quoted (if authToken c \<noteq> [] then mask else [])]
   \<and> (token \<noteq> [] \<and> token' \<noteq> [] \<longrightarrow>
        generateConfigPreview False addr port token ts = generateConfigPreview False addr port token' ts)
   \<and> generateConfigPreview True (serverAddr c) (serverPort c) (authToken c) (tunnels c)
        = generateFrpcConfig c"
proof (intro conjI impI)
  show "previewLines False (serverAddr c) (serverPort c) (authToken c) (tunnels c)
     = (frpcConfigLines c)[4 := ''auth.token = '' @ quoted (if authToken c \<noteq> [] then mask else [])]"
    unfolding previewLines_blocks frpcConfigLines_blocks
    by (simp add: list_update_append length_global_lines maskedToken_def global_lines_def)
next
  assume "token \<noteq> [] \<and> token' \<noteq> []"
  then show "generateConfigPreview False addr port token ts
      = generateConfigPreview False addr port token' ts"
    by (simp add: generateConfigPreview_def previewLines_def maskedToken_def)
next
  show "generateConfigPreview True (serverAddr c) (serverPort c) (authToken c) (tunnels c)
        = generateFrpcConfig c"
    by (simp add: generateConfigPreview_def generateFrpcConfig_def previewLines_def
        frpcConfigLines_def maskedToken_def)
qed

lemma mask_bytes: "mask = bullet @ bullet @ bullet @ bullet @ bullet @ bullet
                      @ bullet @ bullet @ bullet @ bullet @ bullet @ bullet"
  by (simp add: mask_def eval_nat_numeral)

lemmas preview_defs = generateConfigPreview_def previewLines_def maskedToken_def global_lines_def
  quoted_def dq_def nl_def num_to_string_def nat_to_string.simps digit_char_def

text \<open>
  C6 as the claim words it fails twice. With the show-token toggle on, the preview shows the
  secret \<open>s3cret\<close>. With the toggle off, a secret that is a piece of the fixed text, such as
  \<open>token\<close>, still occurs in the preview (in the auth method line).
\<close>

theorem preview_masks_token_counterexample:
  "str_includes (generateConfigPreview True ''frp.example.com'' 7000 ''s3cret'' []) ''s3cret''
   \<and> str_includes (generateConfigPreview False ''frp.example.com'' 7000 ''token'' []) ''token''"
  by (simp add: preview_defs)

theorem preview_masks_token_witness:
  "''s3cret'' \<noteq> [] \<and> ''hunter2'' \<noteq> []
   \<and> generateConfigPreview False ''frp.example.com'' 7000 ''s3cret'' []
     = generateConfigPreview False ''frp.example.com'' 7000 ''hunter2'' []
   \<and> \<not> str_includes (generateConfigPreview False ''frp.example.com'' 7000 ''s3cret'' []) ''s3cret''"
proof -
  have h: "''s3cret'' \<noteq> [] \<and> ''hunter2'' \<noteq> []" by simp
  have n: "\<not> str_includes (generateConfigPreview False ''frp.example.com'' 7000 ''s3cret'' []) ''s3cret''"
    by (simp add: preview_defs mask_bytes bullet_def)
  from preview_masks_token [of _ "''s3cret''" "''hunter2''" "''frp.example.com''" 7000 "[]"] h n
  show ?thesis by blast
qed

section \<open>Export\<close>






text \<open>
  The export of a configuration whose auth token is \<open>s3cret\<close>, with a tunnel that
  \<^verbatim>\<open>addTunnel\<close> made.
\<close>

lemma export_example:
  "exportConfig (example_config [tunnel_ssh_off]) =
     join nl
       [''{'',
        ''  '' @ quoted ''serverAddr'' @ '': '' @ quoted ''frp.example.com'' @ '','',
        ''  '' @ quoted ''serverPort'' @ '': 7000,'',
        ''  '' @ quoted ''remotePortMin'' @ '': 6000,'',
        ''  '' @ quoted ''remotePortMax'' @ '': 6100,'',
        ''  '' @ quoted ''autoStart'' @ '': false,'',
        ''  '' @ quoted ''tunnels'' @ '': ['',
        ''    {'',
        ''      '' @ quoted ''name'' @ '': '' @ quoted ''ssh'' @ '','',
        ''      '' @ quoted ''type'' @ '': '' @ quoted ''tcp'' @ '','',
        ''      '' @ quoted ''localIP'' @ '': '' @ quoted ''127.0.0.1'' @ '','',
        ''      '' @ quoted ''localPort'' @ '': 22,'',
        ''      '' @ quoted ''remotePort'' @ '': 6001,'',
        ''      '' @ quoted ''enabled'' @ '': false,'',
        ''      '' @ quoted ''id'' @ '': '' @ quoted ''t2'',
        ''    }'',
        ''  ]'',
        ''}'']"
  by (simp add: exportConfig_def exportData_def tunnel_json_def tunnel_property_def
      addTunnel_order_def example_config_def
      tunnel_ssh_off_def json_quote_def json_escape_def gap_def nl_def quoted_def dq_def bs_def
      num_to_string_def nat_to_string.simps digit_char_def)

section \<open>Starting: validation failure and the binary locator\<close>

lemma validate_tunnel_appends: "\<exists>ys. validate_tunnel t errs = errs @ ys"
  by (simp add: validate_tunnel_def Let_def)

lemma validate_tunnels_appends: "\<exists>ys. validate_tunnels ts errs = errs @ ys"
  unfolding validate_tunnels_def
proof (induction ts arbitrary: errs)
  case Nil
  then show ?case by simp
next
  case (Cons t ts)
  obtain ys where ys: "validate_tunnel t errs = errs @ ys"
    using validate_tunnel_appends by blast
  obtain zs where "fold validate_tunnel ts (errs @ ys) = (errs @ ys) @ zs"
    using Cons.IH by blast
  with ys show ?case by simp
qed

lemma validate_empty_address:
  assumes "serverAddr c = []"
  shows "\<exists>rest. errors (validateConfig c) = ''Server address is required'' # rest"
proof -
  define E where "E =
     (let errs1 = [''Server address is required''];
          errs2 = (if serverPort c = 0 \<or> serverPort c < 1 \<or> serverPort c > 65535
                   then errs1 @ [''Server port must be between 1 and 65535''] else errs1);
          errs3 = (if authToken c = [] then errs2 @ [''Auth token is required''] else errs2);
          dups = duplicates (map remotePort (tunnels c))
      in (if length dups > 0 then errs3 @ [duplicate_error (new_Set dups)] else errs3))"
  have e: "errors (validateConfig c) = validate_tunnels (tunnels c) E"
    by (simp add: validateConfig_def E_def Let_def assms)
  have "\<exists>r. E = ''Server address is required'' # r"
    by (simp add: E_def Let_def)
  then obtain r where r: "E = ''Server address is required'' # r" ..
  obtain ys where "validate_tunnels (tunnels c) E = E @ ys"
    using validate_tunnels_appends by blast
  with e r show ?thesis by simp
qed

lemma valid_iff: "valid (validateConfig c) = (errors (validateConfig c) = [])"
  by (simp add: validateConfig_def Let_def)

lemmas start_defs = start_def fail_with_def try_spawn_def emit_def clearReconnectTimer_def Let_def

lemma spawns_clearReconnectTimer:
  "filter is_spawn (trace (clearReconnectTimer s)) = filter is_spawn (trace s)"
  by (simp add: clearReconnectTimer_def emit_def split: option.splits)

text \<open>
  C8. A call of \<^const>\<open>start\<close> on a manager that holds no process (the case in which
  \<^verbatim>\<open>start()\<close> validates) with a configuration that fails validation resolves to
  \<open>false\<close>, records the errors joined by \<open>; \<close> as the last error, emits them as its
  last event, leaves the manager without a process and spawns nothing. A configuration with
  an empty server address, server port 7000 and auth token \<open>t\<close> fails validation with an
  error list that contains \<open>Server address is required\<close>, whatever its tunnels, and
  \<^const>\<open>start\<close> fails on it without spawning.
\<close>

theorem start_validation_failure:
  "(process s = None \<and> \<not> valid (validateConfig (config env)) \<longrightarrow>
      fst (start env s) = Resolved False
      \<and> lastError (snd (start env s)) = Some (join ''; '' (errors (validateConfig (config env))))
      \<and> last (trace (snd (start env s)))
          = Emit_error (join ''; '' (errors (validateConfig (config env))))
      \<and> process (snd (start env s)) = None
      \<and> filter is_spawn (trace (snd (start env s))) = filter is_spawn (trace s))
   \<and> (serverAddr (config env) = [] \<and> serverPort (config env) = 7000 \<and> authToken (config env) = ''t''
        \<longrightarrow> \<not> valid (validateConfig (config env))
          \<and> ''Server address is required'' \<in> set (errors (validateConfig (config env)))
          \<and> (process s = None \<longrightarrow>
               fst (start env s) = Resolved False
               \<and> process (snd (start env s)) = None
               \<and> filter is_spawn (trace (snd (start env s))) = filter is_spawn (trace s)))"
proof -
  have fail: "fst (start env s) = Resolved False
      \<and> lastError (snd (start env s)) = Some (join ''; '' (errors (validateConfig (config env))))
      \<and> last (trace (snd (start env s)))
          = Emit_error (join ''; '' (errors (validateConfig (config env))))
      \<and> process (snd (start env s)) = None
      \<and> filter is_spawn (trace (snd (start env s))) = filter is_spawn (trace s)"
    if "process s = None" "\<not> valid (validateConfig (config env))"
    using that by (simp add: start_defs split: option.splits)
  have scen: "\<not> valid (validateConfig (config env))
      \<and> ''Server address is required'' \<in> set (errors (validateConfig (config env)))"
    if "serverAddr (config env) = []"
    using validate_empty_address [OF that] by (auto simp: valid_iff)
  from fail scen show ?thesis by blast
qed

lemmas example_defs = example_env_def example_config_def no_files_def init_def

theorem start_validation_failure_witness:
  "process init = None
   \<and> serverAddr (config (example_env ((example_config [])\<lparr>serverAddr := [], authToken := ''t''\<rparr>))) = []
   \<and> \<not> valid (validateConfig (config (example_env ((example_config [])\<lparr>serverAddr := [], authToken := ''t''\<rparr>))))
   \<and> start (example_env ((example_config [])\<lparr>serverAddr := [], authToken := ''t''\<rparr>)) init
        = (Resolved False,
           init\<lparr>lastError := Some ''Server address is required'',
                trace := [Emit_error ''Server address is required'']\<rparr>)"
proof -
  let ?env = "example_env ((example_config [])\<lparr>serverAddr := [], authToken := ''t''\<rparr>)"
  have h: "process init = None" "serverAddr (config ?env) = []" "serverPort (config ?env) = 7000"
    "authToken (config ?env) = ''t''"
    by (simp_all add: example_defs)
  have v: "start ?env init = (Resolved False,
           init\<lparr>lastError := Some ''Server address is required'',
                trace := [Emit_error ''Server address is required'']\<rparr>)"
    by (simp add: start_defs example_defs eval_defs)
  from start_validation_failure [of init ?env] h have "\<not> valid (validateConfig (config ?env))"
    by blast
  with h v show ?thesis by simp
qed

lemma find_location_cases:
  "findFrpcBinary ex =
     Some (if ex ''/usr/local/bin/frpc'' then ''/usr/local/bin/frpc''
           else if ex ''/usr/bin/frpc'' then ''/usr/bin/frpc''
           else if ex ''/opt/frp-gui/frpc/frpc'' then ''/opt/frp-gui/frpc/frpc''
           else ''frpc'')"
  by (simp add: findFrpcBinary_def locations_def)

lemma findFrpcBinary_resolves: "\<exists>p. findFrpcBinary ex = Some p \<and> p \<noteq> [] \<and> p \<in> set locations"
  by (simp add: find_location_cases locations_def)

lemma validate_tunnel_heads:
  "list_all starts_like_error errs \<Longrightarrow> list_all starts_like_error (validate_tunnel t errs)"
  by (simp add: validate_tunnel_def Let_def local_port_error_def remote_port_error_def
      starts_like_error_def)

lemma validate_tunnels_heads:
  "list_all starts_like_error errs \<Longrightarrow> list_all starts_like_error (validate_tunnels ts errs)"
  unfolding validate_tunnels_def
  by (induction ts arbitrary: errs) (simp_all add: validate_tunnel_heads)

lemma validateConfig_heads: "list_all starts_like_error (errors (validateConfig c))"
proof -
  have "starts_like_error (duplicate_error ds)" for ds
    by (simp add: starts_like_error_def duplicate_error_def duplicate_prefix_def)
  then show ?thesis
    by (simp add: validateConfig_def Let_def validate_tunnels_heads starts_like_error_def)
qed

lemma join_head: "xs \<noteq> [] \<Longrightarrow> hd xs \<noteq> [] \<Longrightarrow> hd (join sep xs) = hd (hd xs)"
proof (cases xs)
  case Nil
  then show "xs \<noteq> [] \<Longrightarrow> ?thesis" by simp
next
  case (Cons x ys)
  then show "hd xs \<noteq> [] \<Longrightarrow> ?thesis" by (cases ys) simp_all
qed

lemma joined_errors_not_binary:
  assumes "\<not> valid (validateConfig c)"
  shows "join ''; '' (errors (validateConfig c)) \<noteq> binary_not_found"
proof -
  from assms have ne: "errors (validateConfig c) \<noteq> []"
    by (simp add: valid_iff)
  with validateConfig_heads [of c] have h: "starts_like_error (hd (errors (validateConfig c)))"
    by (cases "errors (validateConfig c)") simp_all
  then have "hd (join ''; '' (errors (validateConfig c))) \<noteq> CHR ''f''"
    using ne by (simp add: join_head starts_like_error_def)
  then show ?thesis
    by (auto simp: binary_not_found_def)
qed

lemma start_never_binary_not_found:
  "Emit_error binary_not_found \<notin> set (drop (length (trace s)) (trace (snd (start env s))))"
proof -
  obtain p where p: "findFrpcBinary (existsSync env) = Some p" "p \<noteq> []"
    using findFrpcBinary_resolves by blast
  show ?thesis
  proof (cases "valid (validateConfig (config env))")
    case True
    with p show ?thesis
      by (simp add: start_defs binary_not_found_def split: option.splits)
  next
    case False
    with joined_errors_not_binary [OF False] show ?thesis
      by (simp add: start_defs split: option.splits)
  qed
qed

text \<open>
  C9, as the code has it. \<^const>\<open>findFrpcBinary\<close> always returns a path: the first of the three
  fixed locations that exists, and the bare name \<open>frpc\<close> (a lookup in \<open>PATH\<close>) when none
  does. It never returns \<^verbatim>\<open>null\<close> or the empty string, so \<^const>\<open>start\<close> never emits the error
  \<^const>\<open>binary_not_found\<close>; with a valid configuration and a \<^verbatim>\<open>spawn\<close> that returns, it
  spawns the path found and resolves to \<open>true\<close>.
\<close>

theorem findFrpcBinary_always_resolves:
  "findFrpcBinary ex =
     Some (if ex ''/usr/local/bin/frpc'' then ''/usr/local/bin/frpc''
           else if ex ''/usr/bin/frpc'' then ''/usr/bin/frpc''
           else if ex ''/opt/frp-gui/frpc/frpc'' then ''/opt/frp-gui/frpc/frpc''
           else ''frpc'')
   \<and> findFrpcBinary ex \<noteq> None \<and> findFrpcBinary ex \<noteq> Some []
   \<and> Emit_error binary_not_found \<notin> set (drop (length (trace s)) (trace (snd (start env s))))
   \<and> (process s = None \<and> valid (validateConfig (config env))
        \<and> writeFileThrows env = None \<and> spawnThrows env = None \<longrightarrow>
        fst (start env s) = Resolved True
        \<and> lastError (snd (start env s)) = None
        \<and> (\<exists>p. findFrpcBinary (existsSync env) = Some p
              \<and> process (snd (start env s)) = Some (ChildProcess p [''-c'', frpcConfigPath env])
              \<and> filter is_spawn (drop (length (trace s)) (trace (snd (start env s))))
                  = [Spawn p [''-c'', frpcConfigPath env]]))"
proof -
  obtain p where p: "findFrpcBinary (existsSync env) = Some p" "p \<noteq> []"
    using findFrpcBinary_resolves by blast
  have "fst (start env s) = Resolved True
        \<and> lastError (snd (start env s)) = None
        \<and> (\<exists>p. findFrpcBinary (existsSync env) = Some p
              \<and> process (snd (start env s)) = Some (ChildProcess p [''-c'', frpcConfigPath env])
              \<and> filter is_spawn (drop (length (trace s)) (trace (snd (start env s))))
                  = [Spawn p [''-c'', frpcConfigPath env]])"
    if "process s = None" "valid (validateConfig (config env))"
       "writeFileThrows env = None" "spawnThrows env = None"
    using that p by (simp add: start_defs split: option.splits)
  moreover have "findFrpcBinary ex \<noteq> None \<and> findFrpcBinary ex \<noteq> Some []"
    using findFrpcBinary_resolves [of ex] by auto
  ultimately show ?thesis
    using find_location_cases [of ex] start_never_binary_not_found [of s env] by blast
qed

lemma valid_example: "valid (validateConfig (example_config []))"
  by (simp add: eval_defs)

lemma find_no_files: "findFrpcBinary no_files = Some ''frpc''"
  by (simp add: findFrpcBinary_def locations_def no_files_def)

lemma start_example:
  "start (example_env (example_config [])) init =
     (Resolved True,
      init\<lparr>process := Some (ChildProcess ''frpc'' [''-c'', ''/home/user/.config/frp-gui/config/frpc.toml'']),
           trace := [WriteFile ''/home/user/.config/frp-gui/config/frpc.toml''
                       (generateFrpcConfig (example_config [])),
                     Emit_log ''[GUI] Config written to /home/user/.config/frp-gui/config/frpc.toml'',
                     Emit_log ''[GUI] Starting frpc from frpc'',
                     Spawn ''frpc'' [''-c'', ''/home/user/.config/frp-gui/config/frpc.toml''],
                     Emit_status ''running'']\<rparr>)"
  by (simp add: start_defs valid_example find_no_files example_env_def init_def)

text \<open>
  C9 as the claim words it fails: on a machine where none of the fixed locations exists
  the locator still answers \<open>frpc\<close>, and \<^const>\<open>start\<close> spawns it and reports success
  instead of a missing binary.
\<close>

theorem findFrpcBinary_always_resolves_counterexample:
  "findFrpcBinary no_files = Some ''frpc''
   \<and> fst (start (example_env (example_config [])) init) = Resolved True
   \<and> lastError (snd (start (example_env (example_config [])) init)) = None
   \<and> process (snd (start (example_env (example_config [])) init))
       = Some (ChildProcess ''frpc'' [''-c'', ''/home/user/.config/frp-gui/config/frpc.toml''])"
  unfolding start_example by (simp add: find_no_files init_def)

theorem findFrpcBinary_always_resolves_witness:
  "process init = None \<and> valid (validateConfig (config (example_env (example_config []))))
   \<and> writeFileThrows (example_env (example_config [])) = None
   \<and> spawnThrows (example_env (example_config [])) = None
   \<and> fst (start (example_env (example_config [])) init) = Resolved True
   \<and> lastError (snd (start (example_env (example_config [])) init)) = None"
proof -
  have h: "process init = None" "valid (validateConfig (config (example_env (example_config []))))"
    "writeFileThrows (example_env (example_config [])) = None"
    "spawnThrows (example_env (example_config [])) = None"
    by (simp_all add: init_def example_env_def valid_example)
  with findFrpcBinary_always_resolves [of no_files init "example_env (example_config [])"]
  show ?thesis by blast
qed

section \<open>The reconnect sub-flow\<close>

lemma scheduled_append: "scheduled (xs @ ys) = scheduled xs @ scheduled ys"
  by (simp add: scheduled_def)

lemma scheduled_simps:
  "scheduled [] = []"
  "scheduled (SetReconnectTimer t d # tr) = d # scheduled tr"
  "scheduled (Emit_log m # tr) = scheduled tr"
  "scheduled (Emit_error m # tr) = scheduled tr"
  "scheduled (Emit_status m # tr) = scheduled tr"
  "scheduled (ShowNotification a b # tr) = scheduled tr"
  "scheduled (WriteFile a b # tr) = scheduled tr"
  "scheduled (Spawn a c # tr) = scheduled tr"
  "scheduled (ClearReconnectTimer t # tr) = scheduled tr"
  "scheduled (ReconnectTimerFired t # tr) = scheduled tr"
  "scheduled (SetKillTimer d # tr) = scheduled tr"
  "scheduled (ClearKillTimer # tr) = scheduled tr"
  "scheduled (Kill sg # tr) = scheduled tr"
  "scheduled (Resolve r # tr) = scheduled tr"
  by (simp_all add: scheduled_def)

lemma handleDisconnect_retry:
  assumes "autoReconnect s" "\<not> intentionallyStopped s" "reconnectAttempts s < 5"
  shows "handleDisconnect s =
     s\<lparr>reconnectAttempts := reconnectAttempts s + 1,
        reconnectTimer := Some (nextTimer s),
        pendingTimers := pendingTimers s @ [nextTimer s],
        nextTimer := nextTimer s + 1,
        trace := trace s @ [Emit_log (reconnect_log (5000 * (reconnectAttempts s + 1))
                                        (reconnectAttempts s + 1)),
                            SetReconnectTimer (nextTimer s) (5000 * (reconnectAttempts s + 1))]\<rparr>"
  using assms
  by (simp add: handleDisconnect_def maxReconnectAttempts_def reconnectDelay_def Let_def
      setReconnectTimer_def emit_def)

lemma handleDisconnect_give_up:
  assumes "autoReconnect s" "\<not> intentionallyStopped s" "reconnectAttempts s \<ge> 5"
  shows "handleDisconnect s =
     s\<lparr>trace := trace s @ [Emit_log max_attempts_log, max_attempts_notification]\<rparr>"
  using assms
  by (simp add: handleDisconnect_def maxReconnectAttempts_def emit_def)

lemma handleDisconnect_skip:
  "intentionallyStopped s \<or> \<not> autoReconnect s \<Longrightarrow> handleDisconnect s = s"
  by (auto simp: handleDisconnect_def)

lemma stop_on_exit_funpow:
  "(stop_on_exit ^^ k) s =
     s\<lparr>process := (if k = 0 then process s else None),
        trace := trace s @ concat (replicate k [ClearKillTimer, Emit_status ''stopped'', Resolve True])\<rparr>"
proof (induction k arbitrary: s)
  case 0
  then show ?case by simp
next
  case (Suc k)
  have "(stop_on_exit ^^ Suc k) s = (stop_on_exit ^^ k) (stop_on_exit s)"
    by (simp add: funpow_swap1)
  then show ?case
    by (simp add: Suc.IH) (simp add: stop_on_exit_def emit_def)
qed

lemma scheduled_waiters:
  "scheduled (concat (replicate k [ClearKillTimer, Emit_status ''stopped'', Resolve True])) = []"
  by (induction k) (simp_all add: scheduled_append scheduled_simps)

lemma max_not_in_waiters:
  "max_attempts_notification \<notin> set (concat (replicate k [ClearKillTimer, Emit_status ''stopped'', Resolve True]))"
  by (induction k) (simp_all add: max_attempts_notification_def)

lemma max_attempts_notification_simps:
  "scheduled (max_attempts_notification # tr) = scheduled tr"
  "Emit_log m \<noteq> max_attempts_notification"
  "max_attempts_notification \<noteq> Emit_log m"
  "SetReconnectTimer t d \<noteq> max_attempts_notification"
  "max_attempts_notification \<noteq> SetReconnectTimer t d"
  "max_attempts_notification \<noteq> ClearKillTimer"
  "max_attempts_notification \<noteq> Emit_status st"
  "max_attempts_notification \<noteq> Resolve r"
  by (simp_all add: max_attempts_notification_def scheduled_def)

lemma scheduled_exit_effects: "scheduled (exit_effects code sig conn) = []"
  by (simp add: exit_effects_def scheduled_append scheduled_simps disconnected_notification_def)

lemma max_not_in_exit_effects: "max_attempts_notification \<notin> set (exit_effects code sig conn)"
  by (simp add: exit_effects_def max_attempts_notification_def disconnected_notification_def)

lemma start_on_exit_eq:
  "start_on_exit code sig s =
     handleDisconnect
       (s\<lparr>lastError := (if code \<noteq> Some 0 \<and> code \<noteq> None
                          then Some (''frpc exited with code '' @ null_or num_to_string code)
                          else lastError s),
          process := None,
          trace := trace s @ exit_effects code sig (connected s)\<rparr>)"
  by (simp add: start_on_exit_def Let_def emit_def exit_effects_def)

lemma start_on_exit_pre:
  "\<exists>s'. start_on_exit code sig s = handleDisconnect s'
     \<and> trace s' = trace s @ exit_effects code sig (connected s)
     \<and> process s' = None
     \<and> autoReconnect s' = autoReconnect s \<and> intentionallyStopped s' = intentionallyStopped s
     \<and> reconnectAttempts s' = reconnectAttempts s \<and> pendingTimers s' = pendingTimers s
     \<and> nextTimer s' = nextTimer s \<and> reconnectTimer s' = reconnectTimer s
     \<and> stopWaiters s' = stopWaiters s \<and> connected s' = connected s"
  unfolding start_on_exit_eq
  by (rule exI [of _ "s\<lparr>lastError := (if code \<noteq> Some 0 \<and> code \<noteq> None
                          then Some (''frpc exited with code '' @ null_or num_to_string code)
                          else lastError s),
          process := None,
          trace := trace s @ exit_effects code sig (connected s)\<rparr>"]) simp

lemma proc_exit_retry:
  assumes "autoReconnect s" "\<not> intentionallyStopped s" "reconnectAttempts s < 5"
  shows "reconnectAttempts (proc_exit code sig s) = reconnectAttempts s + 1"
    and "scheduled (trace (proc_exit code sig s))
          = scheduled (trace s) @ [5000 * (reconnectAttempts s + 1)]"
    and "pendingTimers (proc_exit code sig s) = pendingTimers s @ [nextTimer s]"
    and "reconnectTimer (proc_exit code sig s) = Some (nextTimer s)"
    and "nextTimer (proc_exit code sig s) = nextTimer s + 1"
    and "process (proc_exit code sig s) = None"
    and "autoReconnect (proc_exit code sig s)"
    and "\<not> intentionallyStopped (proc_exit code sig s)"
    and "max_attempts_notification
           \<notin> set (drop (length (trace s)) (trace (proc_exit code sig s)))"
proof -
  obtain s' where s': "start_on_exit code sig s = handleDisconnect s'"
     "trace s' = trace s @ exit_effects code sig (connected s)" "process s' = None"
     "autoReconnect s' = autoReconnect s" "intentionallyStopped s' = intentionallyStopped s"
     "reconnectAttempts s' = reconnectAttempts s" "pendingTimers s' = pendingTimers s"
     "nextTimer s' = nextTimer s"
    using start_on_exit_pre [of code sig s] by blast
  from assms s' have "autoReconnect s'" "\<not> intentionallyStopped s'" "reconnectAttempts s' < 5"
    by auto
  note r = handleDisconnect_retry [OF this]
  show "reconnectAttempts (proc_exit code sig s) = reconnectAttempts s + 1"
    using r s' by (simp add: proc_exit_def Let_def stop_on_exit_funpow)
  show "scheduled (trace (proc_exit code sig s))
          = scheduled (trace s) @ [5000 * (reconnectAttempts s + 1)]"
    using r s' by (simp add: proc_exit_def Let_def stop_on_exit_funpow scheduled_append
        scheduled_simps scheduled_waiters scheduled_exit_effects)
  show "pendingTimers (proc_exit code sig s) = pendingTimers s @ [nextTimer s]"
    using r s' by (simp add: proc_exit_def Let_def stop_on_exit_funpow)
  show "reconnectTimer (proc_exit code sig s) = Some (nextTimer s)"
    using r s' by (simp add: proc_exit_def Let_def stop_on_exit_funpow)
  show "nextTimer (proc_exit code sig s) = nextTimer s + 1"
    using r s' by (simp add: proc_exit_def Let_def stop_on_exit_funpow)
  show "process (proc_exit code sig s) = None"
    using r s' by (simp add: proc_exit_def Let_def stop_on_exit_funpow)
  show "autoReconnect (proc_exit code sig s)"
    using r s' assms by (simp add: proc_exit_def Let_def stop_on_exit_funpow)
  show "\<not> intentionallyStopped (proc_exit code sig s)"
    using r s' assms by (simp add: proc_exit_def Let_def stop_on_exit_funpow)
  show "max_attempts_notification
           \<notin> set (drop (length (trace s)) (trace (proc_exit code sig s)))"
    using r s' by (simp add: proc_exit_def Let_def stop_on_exit_funpow max_not_in_exit_effects
        max_not_in_waiters max_attempts_notification_simps)
qed

lemma proc_exit_give_up:
  assumes "autoReconnect s" "\<not> intentionallyStopped s" "reconnectAttempts s \<ge> 5"
  shows "reconnectAttempts (proc_exit code sig s) = reconnectAttempts s"
    and "scheduled (trace (proc_exit code sig s)) = scheduled (trace s)"
    and "pendingTimers (proc_exit code sig s) = pendingTimers s"
    and "count_list (drop (length (trace s)) (trace (proc_exit code sig s)))
           max_attempts_notification = 1"
proof -
  obtain s' where s': "start_on_exit code sig s = handleDisconnect s'"
     "trace s' = trace s @ exit_effects code sig (connected s)" "process s' = None"
     "autoReconnect s' = autoReconnect s" "intentionallyStopped s' = intentionallyStopped s"
     "reconnectAttempts s' = reconnectAttempts s" "pendingTimers s' = pendingTimers s"
     "nextTimer s' = nextTimer s"
    using start_on_exit_pre [of code sig s] by blast
  from assms s' have "autoReconnect s'" "\<not> intentionallyStopped s'" "reconnectAttempts s' \<ge> 5"
    by auto
  note g = handleDisconnect_give_up [OF this]
  show "reconnectAttempts (proc_exit code sig s) = reconnectAttempts s"
    using g s' by (simp add: proc_exit_def Let_def stop_on_exit_funpow)
  show "scheduled (trace (proc_exit code sig s)) = scheduled (trace s)"
    using g s' by (simp add: proc_exit_def Let_def stop_on_exit_funpow scheduled_append
        scheduled_simps scheduled_waiters scheduled_exit_effects max_attempts_notification_simps)
  show "pendingTimers (proc_exit code sig s) = pendingTimers s"
    using g s' by (simp add: proc_exit_def Let_def stop_on_exit_funpow)
  show "count_list (drop (length (trace s)) (trace (proc_exit code sig s)))
           max_attempts_notification = 1"
    using g s' by (simp add: proc_exit_def Let_def stop_on_exit_funpow max_not_in_exit_effects
        max_not_in_waiters max_attempts_notification_simps)
qed

text \<open>
  C3. With auto-reconnect enabled and no intentional stop, the exit of the process of a
  manager whose counter is \<open>n - 1\<close>, for \<open>n\<close> from 1 to 5, sets the counter to \<open>n\<close> and
  schedules exactly one retry, with a delay of \<open>5000 * n\<close> milliseconds, and no max-attempts
  notification is shown. When the counter has reached five, the exit shows the
  max-attempts notification once, schedules nothing and leaves the counter as it is.
\<close>

theorem reconnect_backoff:
  "(autoReconnect s \<and> \<not> intentionallyStopped s \<and> 1 \<le> n \<and> n \<le> 5 \<and> reconnectAttempts s = n - 1
      \<longrightarrow> reconnectAttempts (proc_exit code sig s) = n
        \<and> scheduled (trace (proc_exit code sig s)) = scheduled (trace s) @ [5000 * n]
        \<and> pendingTimers (proc_exit code sig s) = pendingTimers s @ [nextTimer s]
        \<and> reconnectTimer (proc_exit code sig s) = Some (nextTimer s)
        \<and> max_attempts_notification \<notin> set (drop (length (trace s)) (trace (proc_exit code sig s))))
   \<and> (autoReconnect s \<and> \<not> intentionallyStopped s \<and> reconnectAttempts s \<ge> 5
      \<longrightarrow> reconnectAttempts (proc_exit code sig s) = reconnectAttempts s
        \<and> scheduled (trace (proc_exit code sig s)) = scheduled (trace s)
        \<and> pendingTimers (proc_exit code sig s) = pendingTimers s
        \<and> count_list (drop (length (trace s)) (trace (proc_exit code sig s)))
             max_attempts_notification = 1)"
proof (intro conjI impI)
  assume h: "autoReconnect s \<and> \<not> intentionallyStopped s \<and> 1 \<le> n \<and> n \<le> 5
      \<and> reconnectAttempts s = n - 1"
  then have a: "autoReconnect s" "\<not> intentionallyStopped s" "reconnectAttempts s < 5"
    and n: "reconnectAttempts s + 1 = n"
    by auto
  show "reconnectAttempts (proc_exit code sig s) = n"
    using proc_exit_retry(1) [OF a] n by simp
  show "scheduled (trace (proc_exit code sig s)) = scheduled (trace s) @ [5000 * n]"
    using proc_exit_retry(2) [OF a] n by simp
  show "pendingTimers (proc_exit code sig s) = pendingTimers s @ [nextTimer s]"
    by (rule proc_exit_retry(3) [OF a])
  show "reconnectTimer (proc_exit code sig s) = Some (nextTimer s)"
    by (rule proc_exit_retry(4) [OF a])
  show "max_attempts_notification \<notin> set (drop (length (trace s)) (trace (proc_exit code sig s)))"
    by (rule proc_exit_retry(9) [OF a])
next
  assume h: "autoReconnect s \<and> \<not> intentionallyStopped s \<and> reconnectAttempts s \<ge> 5"
  then have a: "autoReconnect s" "\<not> intentionallyStopped s" "reconnectAttempts s \<ge> 5"
    by auto
  show "reconnectAttempts (proc_exit code sig s) = reconnectAttempts s"
    by (rule proc_exit_give_up(1) [OF a])
  show "scheduled (trace (proc_exit code sig s)) = scheduled (trace s)"
    by (rule proc_exit_give_up(2) [OF a])
  show "pendingTimers (proc_exit code sig s) = pendingTimers s"
    by (rule proc_exit_give_up(3) [OF a])
  show "count_list (drop (length (trace s)) (trace (proc_exit code sig s)))
             max_attempts_notification = 1"
    by (rule proc_exit_give_up(4) [OF a])
qed

lemma proc_error_eq:
  "proc_error m s =
     handleDisconnect
       (s\<lparr>lastError := Some (''Failed to start frpc: '' @ m), process := None,
          trace := trace s @ [Emit_error (''Failed to start frpc: '' @ m), Emit_status ''stopped'']\<rparr>)"
  by (simp add: proc_error_def Let_def emit_def)

lemma scheduled_clearReconnectTimer:
  "scheduled (trace (clearReconnectTimer s)) = scheduled (trace s)"
  by (simp add: clearReconnectTimer_def emit_def scheduled_append scheduled_simps
      split: option.splits)

lemma clearReconnectTimer_fields:
  "reconnectTimer (clearReconnectTimer s) = None"
  "reconnectAttempts (clearReconnectTimer s) = reconnectAttempts s"
  "process (clearReconnectTimer s) = process s"
  by (simp_all add: clearReconnectTimer_def emit_def split: option.splits)

text \<open>
  C2, as the code has it. When \<^verbatim>\<open>spawn\<close> throws, \<^const>\<open>start\<close> records the failure as the last
  error, emits it and resolves to \<open>false\<close>; the counter is unchanged and no retry is
  scheduled. When the spawn failure arrives as the event \<^verbatim>\<open>error\<close> of the child process,
  the listener records it as the last error, emits it and the status \<open>stopped\<close>, and
  calls \<^const>\<open>handleDisconnect\<close>: with auto-reconnect enabled, no intentional stop and fewer
  than five attempts, the counter is incremented and a retry is scheduled, as after an
  unexpected exit.
\<close>

theorem spawn_failure_reconnect:
  "(process s = None \<and> valid (validateConfig (config env)) \<and> writeFileThrows env = None
      \<and> spawnThrows env = Some e
      \<longrightarrow> fst (start env s) = Resolved False
        \<and> lastError (snd (start env s)) = Some (''Failed to start frpc: '' @ e)
        \<and> process (snd (start env s)) = None
        \<and> reconnectAttempts (snd (start env s)) = reconnectAttempts s
        \<and> reconnectTimer (snd (start env s)) = None
        \<and> scheduled (trace (snd (start env s))) = scheduled (trace s)
        \<and> last (trace (snd (start env s))) = Emit_error (''Failed to start frpc: '' @ e))
   \<and> (autoReconnect s \<and> \<not> intentionallyStopped s \<and> reconnectAttempts s < 5
      \<longrightarrow> lastError (proc_error m s) = Some (''Failed to start frpc: '' @ m)
        \<and> process (proc_error m s) = None
        \<and> reconnectAttempts (proc_error m s) = reconnectAttempts s + 1
        \<and> reconnectTimer (proc_error m s) = Some (nextTimer s)
        \<and> pendingTimers (proc_error m s) = pendingTimers s @ [nextTimer s]
        \<and> scheduled (trace (proc_error m s))
            = scheduled (trace s) @ [5000 * (reconnectAttempts s + 1)]
        \<and> take 2 (drop (length (trace s)) (trace (proc_error m s)))
            = [Emit_error (''Failed to start frpc: '' @ m), Emit_status ''stopped''])"
proof -
  obtain p where p: "findFrpcBinary (existsSync env) = Some p" "p \<noteq> []"
    using findFrpcBinary_resolves by blast
  have sync: "fst (start env s) = Resolved False
        \<and> lastError (snd (start env s)) = Some (''Failed to start frpc: '' @ e)
        \<and> process (snd (start env s)) = None
        \<and> reconnectAttempts (snd (start env s)) = reconnectAttempts s
        \<and> reconnectTimer (snd (start env s)) = None
        \<and> scheduled (trace (snd (start env s))) = scheduled (trace s)
        \<and> last (trace (snd (start env s))) = Emit_error (''Failed to start frpc: '' @ e)"
    if "process s = None" "valid (validateConfig (config env))" "writeFileThrows env = None"
       "spawnThrows env = Some e"
    using that p
    by (simp add: start_def fail_with_def try_spawn_def emit_def Let_def scheduled_append
        scheduled_simps scheduled_clearReconnectTimer clearReconnectTimer_fields)
  have async: "lastError (proc_error m s) = Some (''Failed to start frpc: '' @ m)
        \<and> process (proc_error m s) = None
        \<and> reconnectAttempts (proc_error m s) = reconnectAttempts s + 1
        \<and> reconnectTimer (proc_error m s) = Some (nextTimer s)
        \<and> pendingTimers (proc_error m s) = pendingTimers s @ [nextTimer s]
        \<and> scheduled (trace (proc_error m s))
            = scheduled (trace s) @ [5000 * (reconnectAttempts s + 1)]
        \<and> take 2 (drop (length (trace s)) (trace (proc_error m s)))
            = [Emit_error (''Failed to start frpc: '' @ m), Emit_status ''stopped'']"
    if "autoReconnect s" "\<not> intentionallyStopped s" "reconnectAttempts s < 5"
    unfolding proc_error_eq using that
    by (subst handleDisconnect_retry; simp add: scheduled_append scheduled_simps)+
  from sync async show ?thesis by blast
qed

lemma running_eq:
  "running =
      init\<lparr>process := Some (ChildProcess ''frpc'' [''-c'', ''/home/user/.config/frp-gui/config/frpc.toml'']),
           trace := [WriteFile ''/home/user/.config/frp-gui/config/frpc.toml''
                       (generateFrpcConfig (example_config [])),
                     Emit_log ''[GUI] Config written to /home/user/.config/frp-gui/config/frpc.toml'',
                     Emit_log ''[GUI] Starting frpc from frpc'',
                     Spawn ''frpc'' [''-c'', ''/home/user/.config/frp-gui/config/frpc.toml''],
                     Emit_status ''running'']\<rparr>"
  by (simp add: running_def start_example)

text \<open>
  C2 as the claim words it fails: after a first \<^verbatim>\<open>start()\<close>, the event \<^verbatim>\<open>error\<close> of an
  executable that was not found increments the counter to 1 and schedules a retry after
  5000 milliseconds.
\<close>

theorem spawn_failure_reconnect_counterexample:
  "reconnectAttempts (run [Call_start (example_env (example_config [])),
                           Proc_error ''spawn frpc ENOENT''] init) = 1
   \<and> pendingTimers (run [Call_start (example_env (example_config [])),
                        Proc_error ''spawn frpc ENOENT''] init) = [0]
   \<and> scheduled (trace (run [Call_start (example_env (example_config [])),
                            Proc_error ''spawn frpc ENOENT''] init)) = [5000]"
  by (simp add: run_def start_example proc_error_eq)
     (simp add: init_def handleDisconnect_retry scheduled_simps)

section \<open>Five crashes in a row\<close>

lemma run_append: "run (xs @ ys) s = run ys (run xs s)"
  by (simp add: run_def)

lemma run_Cons: "run (e # es) s = run es (step e s)"
  by (simp add: run_def)

lemma run_Nil: "run [] s = s"
  by (simp add: run_def)

lemma start_ok:
  assumes "process s = None" "valid (validateConfig (config env))"
    "writeFileThrows env = None" "spawnThrows env = None"
  shows "fst (start env s) = Resolved True"
    and "process (snd (start env s)) \<noteq> None"
    and "connected (snd (start env s)) = False"
    and "reconnectAttempts (snd (start env s)) = reconnectAttempts s"
    and "autoReconnect (snd (start env s)) = autoReconnect s"
    and "\<not> intentionallyStopped (snd (start env s))"
    and "pendingTimers (snd (start env s)) = pendingTimers (clearReconnectTimer s)"
    and "nextTimer (snd (start env s)) = nextTimer s"
    and "scheduled (trace (snd (start env s))) = scheduled (trace s)"
proof -
  obtain p where p: "findFrpcBinary (existsSync env) = Some p" "p \<noteq> []"
    using findFrpcBinary_resolves by blast
  have eq: "start env s =
     (Resolved True,
      (clearReconnectTimer s)\<lparr>intentionallyStopped := False,
          process := Some (ChildProcess p [''-c'', frpcConfigPath env]), connected := False,
          lastError := None,
          trace := trace (clearReconnectTimer s)
             @ [WriteFile (frpcConfigPath env) (generateFrpcConfig (config env)),
                Emit_log (''[GUI] Config written to '' @ frpcConfigPath env),
                Emit_log (''[GUI] Starting frpc from '' @ p),
                Spawn p [''-c'', frpcConfigPath env],
                Emit_status ''running'']\<rparr>)"
    using assms p by (simp add: start_def try_spawn_def emit_def Let_def)
  have c: "reconnectAttempts (clearReconnectTimer s) = reconnectAttempts s"
    "autoReconnect (clearReconnectTimer s) = autoReconnect s"
    "nextTimer (clearReconnectTimer s) = nextTimer s"
    by (simp_all add: clearReconnectTimer_def emit_def split: option.splits)
  show "fst (start env s) = Resolved True"
    and "process (snd (start env s)) \<noteq> None"
    and "connected (snd (start env s)) = False"
    and "reconnectAttempts (snd (start env s)) = reconnectAttempts s"
    and "autoReconnect (snd (start env s)) = autoReconnect s"
    and "\<not> intentionallyStopped (snd (start env s))"
    and "pendingTimers (snd (start env s)) = pendingTimers (clearReconnectTimer s)"
    and "nextTimer (snd (start env s)) = nextTimer s"
    and "scheduled (trace (snd (start env s))) = scheduled (trace s)"
    unfolding eq
    by (simp_all add: c scheduled_append scheduled_simps scheduled_clearReconnectTimer)
qed

lemma crash_cycle_run:
  assumes env: "valid (validateConfig (config env))" "writeFileThrows env = None"
    "spawnThrows env = None"
    and s: "process s \<noteq> None" "autoReconnect s" "\<not> intentionallyStopped s"
    "pendingTimers s = []" "reconnectAttempts s < 5"
  shows "process (run (crash_cycle env (nextTimer s)) s) \<noteq> None"
    and "autoReconnect (run (crash_cycle env (nextTimer s)) s)"
    and "\<not> intentionallyStopped (run (crash_cycle env (nextTimer s)) s)"
    and "pendingTimers (run (crash_cycle env (nextTimer s)) s) = []"
    and "reconnectAttempts (run (crash_cycle env (nextTimer s)) s) = reconnectAttempts s + 1"
    and "nextTimer (run (crash_cycle env (nextTimer s)) s) = nextTimer s + 1"
    and "scheduled (trace (run (crash_cycle env (nextTimer s)) s))
          = scheduled (trace s) @ [5000 * (reconnectAttempts s + 1)]"
proof -
  let ?x = "proc_exit (Some 1) None s"
  note x = proc_exit_retry [OF s(2,3,5), of "Some 1" None]
  let ?f = "emit (ReconnectTimerFired (nextTimer s))
              (?x\<lparr>pendingTimers := removeAll (nextTimer s) (pendingTimers ?x)\<rparr>)"
  have st: "step (Proc_exit (Some 1) None) s = ?x"
    using s(1) by auto
  have "run (crash_cycle env (nextTimer s)) s = step (Reconnect_timer (nextTimer s) env) ?x"
    by (simp add: crash_cycle_def run_def st del: step.simps)
  also have "\<dots> = snd (start env ?f)"
    using s(4) x(3) by simp
  finally have run: "run (crash_cycle env (nextTimer s)) s = snd (start env ?f)" .
  have f: "process ?f = None" "reconnectAttempts ?f = reconnectAttempts s + 1"
    "autoReconnect ?f" "nextTimer ?f = nextTimer s + 1"
    "scheduled (trace ?f) = scheduled (trace s) @ [5000 * (reconnectAttempts s + 1)]"
    "pendingTimers (clearReconnectTimer ?f) = []"
    using x s
    by (simp_all add: emit_def scheduled_append scheduled_simps clearReconnectTimer_def)
  note ok = start_ok [OF f(1) env]
  show "process (run (crash_cycle env (nextTimer s)) s) \<noteq> None"
    unfolding run by (rule ok(2))
  show "autoReconnect (run (crash_cycle env (nextTimer s)) s)"
    unfolding run using ok(5) f by simp
  show "\<not> intentionallyStopped (run (crash_cycle env (nextTimer s)) s)"
    unfolding run by (rule ok(6))
  show "pendingTimers (run (crash_cycle env (nextTimer s)) s) = []"
    unfolding run using ok(7) f by simp
  show "reconnectAttempts (run (crash_cycle env (nextTimer s)) s) = reconnectAttempts s + 1"
    unfolding run using ok(4) f by simp
  show "nextTimer (run (crash_cycle env (nextTimer s)) s) = nextTimer s + 1"
    unfolding run using ok(8) f by simp
  show "scheduled (trace (run (crash_cycle env (nextTimer s)) s))
          = scheduled (trace s) @ [5000 * (reconnectAttempts s + 1)]"
    unfolding run using ok(9) f by simp
qed

lemma crashes_Suc: "crashes env t (Suc k) = crash_cycle env t @ crashes env (Suc t) k"
proof -
  have "[t ..< t + Suc k] = t # [Suc t ..< Suc t + k]"
    by (simp add: upt_conv_Cons del: upt_Suc)
  then show ?thesis
    by (simp add: crashes_def del: upt_Suc)
qed

lemma crashes_run:
  assumes env: "valid (validateConfig (config env))" "writeFileThrows env = None"
    "spawnThrows env = None"
  shows "process s \<noteq> None \<Longrightarrow> autoReconnect s \<Longrightarrow> \<not> intentionallyStopped s \<Longrightarrow>
     pendingTimers s = [] \<Longrightarrow> reconnectAttempts s + k \<le> 5 \<Longrightarrow>
     process (run (crashes env (nextTimer s) k) s) \<noteq> None
     \<and> autoReconnect (run (crashes env (nextTimer s) k) s)
     \<and> \<not> intentionallyStopped (run (crashes env (nextTimer s) k) s)
     \<and> pendingTimers (run (crashes env (nextTimer s) k) s) = []
     \<and> reconnectAttempts (run (crashes env (nextTimer s) k) s) = reconnectAttempts s + k
     \<and> scheduled (trace (run (crashes env (nextTimer s) k) s))
         = scheduled (trace s) @ map (\<lambda>i. 5000 * (reconnectAttempts s + Suc i)) [0 ..< k]"
proof (induction k arbitrary: s)
  case 0
  then show ?case by (simp add: crashes_def run_def)
next
  case (Suc k)
  let ?s1 = "run (crash_cycle env (nextTimer s)) s"
  from Suc.prems have lt: "reconnectAttempts s < 5" by simp
  note c = crash_cycle_run [OF env Suc.prems(1-4) lt]
  have "reconnectAttempts ?s1 + k \<le> 5"
    using c(5) Suc.prems(5) by simp
  note ih = Suc.IH [OF c(1) c(2) c(3) c(4) this]
  have run: "run (crashes env (nextTimer s) (Suc k)) s = run (crashes env (nextTimer ?s1) k) ?s1"
    by (simp add: crashes_Suc run_append c(6))
  have "[0 ..< Suc k] = 0 # map Suc [0 ..< k]"
    by (simp add: upt_conv_Cons map_Suc_upt del: upt_Suc)
  then have m: "map (\<lambda>i. 5000 * (reconnectAttempts s + Suc i)) [0 ..< Suc k]
      = (5000 * (reconnectAttempts s + 1))
        # map (\<lambda>i. 5000 * (reconnectAttempts s + 1 + Suc i)) [0 ..< k]"
    by (simp add: comp_def del: upt_Suc)
  show ?case
    unfolding run m using ih by (simp add: c(5) c(7) del: upt_Suc)
qed

lemma running_fields:
  "process running \<noteq> None" "autoReconnect running" "\<not> intentionallyStopped running"
  "pendingTimers running = []" "reconnectAttempts running = 0" "nextTimer running = 0"
  "scheduled (trace running) = []"
  by (simp_all add: running_eq init_def scheduled_simps)

lemma five_crashes_run:
  "process (run five_crashes running) \<noteq> None
   \<and> autoReconnect (run five_crashes running)
   \<and> \<not> intentionallyStopped (run five_crashes running)
   \<and> pendingTimers (run five_crashes running) = []
   \<and> reconnectAttempts (run five_crashes running) = 5
   \<and> scheduled (trace (run five_crashes running)) = [5000, 10000, 15000, 20000, 25000]"
proof -
  have env: "valid (validateConfig (config (example_env (example_config []))))"
    "writeFileThrows (example_env (example_config [])) = None"
    "spawnThrows (example_env (example_config [])) = None"
    by (simp_all add: example_env_def valid_example)
  have le: "reconnectAttempts running + 5 \<le> 5"
    by (simp add: running_fields)
  have u: "[0 ..< 5] = [0, 1, 2, 3, 4::nat]"
    by (simp add: upt_rec)
  from crashes_run [OF env running_fields(1-4) le]
  show ?thesis
    by (simp add: five_crashes_def running_fields u)
qed

theorem reconnect_backoff_witness:
  "autoReconnect running \<and> \<not> intentionallyStopped running \<and> reconnectAttempts running = 1 - 1
   \<and> scheduled (trace (proc_exit (Some 1) None running)) = [5000]
   \<and> autoReconnect (run five_crashes running) \<and> \<not> intentionallyStopped (run five_crashes running)
   \<and> reconnectAttempts (run five_crashes running) \<ge> 5
   \<and> scheduled (trace (run five_crashes running)) = [5000, 10000, 15000, 20000, 25000]
   \<and> scheduled (trace (proc_exit (Some 1) None (run five_crashes running)))
       = [5000, 10000, 15000, 20000, 25000]
   \<and> count_list (drop (length (trace (run five_crashes running)))
                      (trace (proc_exit (Some 1) None (run five_crashes running))))
        max_attempts_notification = 1"
proof -
  have h1: "autoReconnect running \<and> \<not> intentionallyStopped running \<and> (1::nat) \<le> 1 \<and> (1::nat) \<le> 5
      \<and> reconnectAttempts running = 1 - 1"
    by (simp add: running_fields)
  have h5: "autoReconnect (run five_crashes running) \<and> \<not> intentionallyStopped (run five_crashes running)
      \<and> reconnectAttempts (run five_crashes running) \<ge> 5"
    using five_crashes_run by simp
  from reconnect_backoff [of running 1 "Some 1" None] h1
  have a: "scheduled (trace (proc_exit (Some 1) None running)) = [5000]"
    by (simp add: running_fields)
  from reconnect_backoff [of "run five_crashes running" 1 "Some 1" None] h5
  have b: "scheduled (trace (proc_exit (Some 1) None (run five_crashes running)))
       = scheduled (trace (run five_crashes running))
     \<and> count_list (drop (length (trace (run five_crashes running)))
                      (trace (proc_exit (Some 1) None (run five_crashes running))))
        max_attempts_notification = 1"
    by blast
  from h1 h5 a b five_crashes_run show ?thesis by simp
qed

theorem spawn_failure_reconnect_witness:
  "process init = None
   \<and> valid (validateConfig (config ((example_env (example_config []))\<lparr>spawnThrows := Some ''EACCES''\<rparr>)))
   \<and> fst (start ((example_env (example_config []))\<lparr>spawnThrows := Some ''EACCES''\<rparr>) init)
       = Resolved False
   \<and> lastError (snd (start ((example_env (example_config []))\<lparr>spawnThrows := Some ''EACCES''\<rparr>) init))
       = Some ''Failed to start frpc: EACCES''
   \<and> scheduled (trace (snd (start ((example_env (example_config []))\<lparr>spawnThrows := Some ''EACCES''\<rparr>)
                               init))) = []
   \<and> autoReconnect running \<and> \<not> intentionallyStopped running \<and> reconnectAttempts running < 5
   \<and> reconnectAttempts (proc_error ''spawn frpc ENOENT'' running) = 1
   \<and> scheduled (trace (proc_error ''spawn frpc ENOENT'' running)) = [5000]"
proof -
  let ?env = "(example_env (example_config []))\<lparr>spawnThrows := Some ''EACCES''\<rparr>"
  have h1: "process init = None \<and> valid (validateConfig (config ?env))
      \<and> writeFileThrows ?env = None \<and> spawnThrows ?env = Some ''EACCES''"
    by (simp add: init_def example_env_def valid_example)
  have h2: "autoReconnect running \<and> \<not> intentionallyStopped running \<and> reconnectAttempts running < 5"
    by (simp add: running_fields)
  from spawn_failure_reconnect [of init ?env "''EACCES''"] h1
  have a: "fst (start ?env init) = Resolved False
      \<and> lastError (snd (start ?env init)) = Some (''Failed to start frpc: '' @ ''EACCES'')
      \<and> scheduled (trace (snd (start ?env init))) = scheduled (trace init)"
    by blast
  from spawn_failure_reconnect [of running _ _ "''spawn frpc ENOENT''"] h2
  have b: "reconnectAttempts (proc_error ''spawn frpc ENOENT'' running) = reconnectAttempts running + 1
      \<and> scheduled (trace (proc_error ''spawn frpc ENOENT'' running))
          = scheduled (trace running) @ [5000 * (reconnectAttempts running + 1)]"
    by blast
  from h1 h2 a b show ?thesis
    by (simp add: running_fields) (simp add: init_def scheduled_simps)
qed

section \<open>Output of the child process\<close>

lemma stdout_line_plain:
  "\<not> is_success_line line \<or> connected s \<Longrightarrow> stdout_line line s = s\<lparr>trace := trace s @ [Emit_log line]\<rparr>"
  by (auto simp: stdout_line_def emit_def Let_def)

lemma stdout_line_first:
  "is_success_line line \<Longrightarrow> \<not> connected s \<Longrightarrow>
     stdout_line line s = s\<lparr>connected := True, reconnectAttempts := 0,
                          trace := trace s @ [Emit_log line, connected_notification]\<rparr>"
  by (simp add: stdout_line_def emit_def Let_def)

lemma stdout_lines_plain:
  "(\<forall>l \<in> set ls. \<not> is_success_line l) \<or> connected s \<Longrightarrow>
     fold stdout_line ls s = s\<lparr>trace := trace s @ map Emit_log ls\<rparr>"
proof (induction ls arbitrary: s)
  case Nil
  then show ?case by simp
next
  case (Cons l ls)
  from Cons.prems have 1: "\<not> is_success_line l \<or> connected s"
    and 2: "(\<forall>l \<in> set ls. \<not> is_success_line l) \<or> connected (s\<lparr>trace := trace s @ [Emit_log l]\<rparr>)"
    by auto
  show ?case
    by (simp add: stdout_line_plain [OF 1] Cons.IH [OF 2])
qed

lemma stdout_lines_first:
  assumes "\<forall>x \<in> set pre. \<not> is_success_line x" "is_success_line l" "\<not> connected s"
  shows "fold stdout_line (pre @ l # post) s =
     s\<lparr>connected := True, reconnectAttempts := 0,
       trace := trace s @ map Emit_log pre @ [Emit_log l, connected_notification]
                @ map Emit_log post\<rparr>"
proof -
  have a: "fold stdout_line pre s = s\<lparr>trace := trace s @ map Emit_log pre\<rparr>"
    using assms(1) by (simp add: stdout_lines_plain)
  have b: "stdout_line l (s\<lparr>trace := trace s @ map Emit_log pre\<rparr>) =
      s\<lparr>connected := True, reconnectAttempts := 0,
        trace := trace s @ map Emit_log pre @ [Emit_log l, connected_notification]\<rparr>"
    using assms(2,3) by (simp add: stdout_line_first)
  show ?thesis
    by (simp add: a b stdout_lines_plain)
qed

lemma fold_stdout_data:
  "fold stdout_data chunks s = fold stdout_line (concat (map chunk_lines chunks)) s"
  by (induction chunks arbitrary: s) (simp_all add: stdout_data_def)

lemma first_success_split:
  "\<exists>l \<in> set ls. is_success_line l \<Longrightarrow>
     \<exists>pre l post. ls = pre @ l # post \<and> (\<forall>x \<in> set pre. \<not> is_success_line x) \<and> is_success_line l"
  using split_list_first_prop [of ls is_success_line] by blast

lemma connected_not_log: "connected_notification \<notin> set (map Emit_log ls)"
  by (auto simp: connected_notification_def)

lemma start_fresh_connected:
  assumes "process s0 = None" "start env s0 = (Resolved True, s)"
  shows "\<not> connected s"
  using assms
  by (auto simp: start_def fail_with_def try_spawn_def emit_def Let_def
      split: if_splits option.splits)

text \<open>
  C4, as the code has it. Take the manager right after a \<^verbatim>\<open>start()\<close> that spawned a process,
  and any sequence of chunks on the standard output of that process; the lines are the
  pieces the listener makes of each chunk (\<^const>\<open>chunk_lines\<close>). If one of these lines holds
  one of the two success markers, the connected notification is shown exactly once over
  the whole sequence, and the counter is zero afterwards. More precisely, with \<open>l\<close> the
  first such line: the lines before it are only logged and leave the counter as it is,
  the line \<open>l\<close> is logged and followed by the one notification, and the counter is zero as
  soon as \<open>l\<close> has been handled; the lines after it are only logged, success markers or
  not.
\<close>

theorem connected_notification_once:
  "(process s0 = None \<and> start env s0 = (Resolved True, s)
      \<and> (\<exists>l \<in> set (concat (map chunk_lines chunks)). is_success_line l)
      \<longrightarrow> count_list (drop (length (trace s)) (trace (fold stdout_data chunks s)))
            connected_notification = 1
        \<and> reconnectAttempts (fold stdout_data chunks s) = 0)
   \<and> (process s0 = None \<and> start env s0 = (Resolved True, s)
      \<and> concat (map chunk_lines chunks) = pre @ l # post
      \<and> (\<forall>x \<in> set pre. \<not> is_success_line x) \<and> is_success_line l
      \<longrightarrow> trace (fold stdout_data chunks s)
            = trace s @ map Emit_log pre @ [Emit_log l, connected_notification] @ map Emit_log post
        \<and> trace (fold stdout_line pre s) = trace s @ map Emit_log pre
        \<and> reconnectAttempts (fold stdout_line pre s) = reconnectAttempts s
        \<and> reconnectAttempts (fold stdout_line (pre @ [l]) s) = 0)"
proof (intro conjI impI)
  assume h: "process s0 = None \<and> start env s0 = (Resolved True, s)
      \<and> (\<exists>l \<in> set (concat (map chunk_lines chunks)). is_success_line l)"
  then have nc: "\<not> connected s"
    using start_fresh_connected by blast
  from h obtain pre l post where sp: "concat (map chunk_lines chunks) = pre @ l # post"
    "\<forall>x \<in> set pre. \<not> is_success_line x" "is_success_line l"
    using first_success_split [of "concat (map chunk_lines chunks)"] by blast
  have e: "fold stdout_data chunks s =
     s\<lparr>connected := True, reconnectAttempts := 0,
       trace := trace s @ map Emit_log pre @ [Emit_log l, connected_notification]
                @ map Emit_log post\<rparr>"
    by (simp only: fold_stdout_data sp(1) stdout_lines_first [OF sp(2) sp(3) nc, of post])
  have n: "Emit_log l \<noteq> connected_notification"
    by (simp add: connected_notification_def)
  show "count_list (drop (length (trace s)) (trace (fold stdout_data chunks s)))
            connected_notification = 1"
    by (simp add: e connected_not_log n del: set_map)
  show "reconnectAttempts (fold stdout_data chunks s) = 0"
    by (simp add: e)
next
  assume h: "process s0 = None \<and> start env s0 = (Resolved True, s)
      \<and> concat (map chunk_lines chunks) = pre @ l # post
      \<and> (\<forall>x \<in> set pre. \<not> is_success_line x) \<and> is_success_line l"
  then have nc: "\<not> connected s"
    using start_fresh_connected by blast
  from h have sp: "concat (map chunk_lines chunks) = pre @ l # post"
    "\<forall>x \<in> set pre. \<not> is_success_line x" "is_success_line l"
    by auto
  show "trace (fold stdout_data chunks s)
            = trace s @ map Emit_log pre @ [Emit_log l, connected_notification] @ map Emit_log post"
    by (simp only: fold_stdout_data sp(1) stdout_lines_first [OF sp(2) sp(3) nc, of post])
       simp
  show "trace (fold stdout_line pre s) = trace s @ map Emit_log pre"
    using sp(2) by (simp add: stdout_lines_plain)
  show "reconnectAttempts (fold stdout_line pre s) = reconnectAttempts s"
    using sp(2) by (simp add: stdout_lines_plain)
  show "reconnectAttempts (fold stdout_line (pre @ [l]) s) = 0"
    by (simp only: stdout_lines_first [OF sp(2) sp(3) nc, of "[]"]) simp
qed

lemmas chunk_defs = chunk_lines_def trim_def strip.simps token_length_def whitespace_def nl_def

lemma example_output_lines:
  "concat (map chunk_lines example_output)
     = [''login to server success'', ''[web] start proxy success'', ''login to server success'']"
  by (simp add: example_output_def chunk_defs)

lemma cut_output_lines:
  "concat (map chunk_lines cut_output) = [''login to server suc'', ''cess'']"
  "chunk_lines (concat cut_output) = [''login to server success'']"
  by (simp_all add: cut_output_def chunk_defs)

lemma success_examples:
  "is_success_line ''login to server success''"
  "\<not> is_success_line ''login to server suc''"
  "\<not> is_success_line ''cess''"
  by (simp_all add: is_success_line_def)

text \<open>
  C4 as the claim words it fails: the process writes the line \<open>login to server success\<close>
  and the runtime delivers it in two chunks. Neither piece holds the marker, so no
  notification is shown and the counter is not reset.
\<close>

theorem connected_notification_once_counterexample:
  "chunk_lines (concat cut_output) = [''login to server success'']
   \<and> is_success_line ''login to server success''
   \<and> count_list (drop (length (trace running)) (trace (fold stdout_data cut_output running)))
        connected_notification = 0
   \<and> reconnectAttempts (fold stdout_data cut_output (running\<lparr>reconnectAttempts := 2\<rparr>)) = 2"
proof -
  have p: "\<forall>l \<in> set [''login to server suc'', ''cess'']. \<not> is_success_line l"
    by (simp add: success_examples)
  have e: "fold stdout_data cut_output s
      = s\<lparr>trace := trace s @ map Emit_log [''login to server suc'', ''cess'']\<rparr>" for s
    unfolding fold_stdout_data cut_output_lines(1)
    by (rule stdout_lines_plain) (simp add: p)
  show ?thesis
    by (simp add: e cut_output_lines(2) success_examples connected_notification_def)
qed

theorem connected_notification_once_witness:
  "process init = None
   \<and> start (example_env (example_config [])) init = (Resolved True, running)
   \<and> (\<exists>l \<in> set (concat (map chunk_lines example_output)). is_success_line l)
   \<and> count_list (drop (length (trace running)) (trace (fold stdout_data example_output running)))
        connected_notification = 1
   \<and> reconnectAttempts (fold stdout_data example_output running) = 0"
proof -
  have h: "process init = None \<and> start (example_env (example_config [])) init = (Resolved True, running)
      \<and> (\<exists>l \<in> set (concat (map chunk_lines example_output)). is_success_line l)"
    by (simp add: start_example running_eq example_output_lines success_examples)
       (simp add: init_def)
  with connected_notification_once [of init "example_env (example_config [])" running example_output]
  show ?thesis by blast
qed

section \<open>Stopping\<close>

subsection \<open>What the handlers leave alone\<close>

lemma removeAll_all: "\<forall>u \<in> set xs. u = t \<Longrightarrow> removeAll t xs = []"
  by (induction xs) auto

lemma clear_tracked:
  assumes "\<forall>t \<in> set (pendingTimers s). reconnectTimer s = Some t"
  shows "pendingTimers (clearReconnectTimer s) = []"
proof (cases "reconnectTimer s")
  case None
  with assms have "pendingTimers s = []"
    by (cases "pendingTimers s") auto
  with None show ?thesis by (simp add: clearReconnectTimer_def)
next
  case (Some t)
  with assms have "\<forall>u \<in> set (pendingTimers s). u = t" by auto
  then have "removeAll t (pendingTimers s) = []"
    by (rule removeAll_all)
  with Some show ?thesis by (simp add: clearReconnectTimer_def emit_def)
qed

lemma clear_fields:
  "reconnectTimer (clearReconnectTimer s) = None"
  "process (clearReconnectTimer s) = process s"
  "intentionallyStopped (clearReconnectTimer s) = intentionallyStopped s"
  "trace (clearReconnectTimer s) = trace s @ cancel_effects s"
  by (simp_all add: clearReconnectTimer_def emit_def cancel_effects_def split: option.splits)

lemma start_timers:
  assumes "process s = None"
  shows "pendingTimers (snd (start env s)) = pendingTimers (clearReconnectTimer s)"
    and "reconnectTimer (snd (start env s)) = None"
  using assms
  by (simp_all add: start_def fail_with_def try_spawn_def emit_def Let_def clear_fields
      split: option.splits)

lemma start_busy:
  assumes "process s \<noteq> None"
  shows "start env s = (Resolved True, s\<lparr>trace := trace s @ [Emit_log ''[GUI] FRP client is already running'']\<rparr>)"
  using assms by (auto simp: start_def emit_def)

lemma stop_timers:
  "pendingTimers (snd (stop s)) = pendingTimers (clearReconnectTimer s)"
  "reconnectTimer (snd (stop s)) = None"
  "process (snd (stop s)) = process s"
  "intentionallyStopped (snd (stop s))"
  by (simp_all add: stop_def emit_def Let_def clearReconnectTimer_def split: option.splits)

lemma fold_stdout_fields:
  "pendingTimers (fold stdout_line ls s) = pendingTimers s"
  "reconnectTimer (fold stdout_line ls s) = reconnectTimer s"
  "process (fold stdout_line ls s) = process s"
  "intentionallyStopped (fold stdout_line ls s) = intentionallyStopped s"
  by (induction ls arbitrary: s) (simp_all add: stdout_line_def emit_def Let_def)

lemma fold_stderr_eq:
  "fold (\<lambda>line. emit (Emit_log (''[ERR] '' @ line))) ls s
     = s\<lparr>trace := trace s @ map (\<lambda>line. Emit_log (''[ERR] '' @ line)) ls\<rparr>"
  by (induction ls arbitrary: s) (simp_all add: emit_def)

lemma stderr_data_eq:
  "stderr_data data s
     = s\<lparr>trace := trace s @ map (\<lambda>line. Emit_log (''[ERR] '' @ line)) (chunk_lines data)\<rparr>"
  unfolding stderr_data_def by (rule fold_stderr_eq)

lemma handleDisconnect_tracked:
  assumes "pendingTimers s = []" "process s = None"
  shows "timers_tracked (handleDisconnect s)"
  using assms
  by (simp add: timers_tracked_def handleDisconnect_def setReconnectTimer_def emit_def Let_def)

lemma handleDisconnect_process: "process (handleDisconnect s) = process s"
  by (simp add: handleDisconnect_def setReconnectTimer_def emit_def Let_def)

lemma funpow_stop_fields:
  "pendingTimers ((stop_on_exit ^^ k) s) = pendingTimers s"
  "reconnectTimer ((stop_on_exit ^^ k) s) = reconnectTimer s"
  "intentionallyStopped ((stop_on_exit ^^ k) s) = intentionallyStopped s"
  "process s = None \<Longrightarrow> process ((stop_on_exit ^^ k) s) = None"
  by (induction k) (simp_all add: stop_on_exit_def emit_def)

lemma proc_error_tracked:
  assumes "pendingTimers s = []"
  shows "timers_tracked ((proc_error m s)\<lparr>stopWaiters := 0\<rparr>)"
proof -
  have "timers_tracked (proc_error m s)"
    unfolding proc_error_def Let_def
    by (rule handleDisconnect_tracked) (simp_all add: emit_def assms)
  then show ?thesis by (simp add: timers_tracked_def)
qed

lemma start_on_exit_tracked:
  assumes "pendingTimers s = []"
  shows "timers_tracked (start_on_exit code sig s)" "process (start_on_exit code sig s) = None"
proof -
  show "timers_tracked (start_on_exit code sig s)"
    unfolding start_on_exit_def Let_def
    by (rule handleDisconnect_tracked) (simp_all add: emit_def assms)
  show "process (start_on_exit code sig s) = None"
    unfolding start_on_exit_def Let_def
    by (simp add: handleDisconnect_process emit_def)
qed

lemma proc_exit_tracked:
  assumes "pendingTimers s = []"
  shows "timers_tracked (proc_exit code sig s)"
  using start_on_exit_tracked [OF assms, of code sig]
  by (simp add: proc_exit_def Let_def timers_tracked_def funpow_stop_fields)

lemma tracked_step: "timers_tracked s \<Longrightarrow> timers_tracked (step e s)"
proof (cases e)
  case (Call_start env)
  assume t: "timers_tracked s"
  show ?thesis
  proof (cases "process s")
    case None
    with t have "pendingTimers (clearReconnectTimer s) = []"
      by (intro clear_tracked) (simp add: timers_tracked_def)
    with None show ?thesis
      by (simp add: Call_start timers_tracked_def start_timers)
  next
    case (Some p)
    with t show ?thesis
      by (simp add: Call_start timers_tracked_def start_busy)
  qed
next
  case Call_stop
  assume t: "timers_tracked s"
  then have "pendingTimers (clearReconnectTimer s) = []"
    by (intro clear_tracked) (simp add: timers_tracked_def)
  then show ?thesis
    by (simp add: Call_stop timers_tracked_def stop_timers)
next
  case (Call_setAutoReconnect b)
  assume "timers_tracked s"
  then show ?thesis
    by (simp add: Call_setAutoReconnect timers_tracked_def setAutoReconnect_def)
next
  case (Stdout_data ls)
  assume "timers_tracked s"
  then show ?thesis
    by (simp add: Stdout_data timers_tracked_def stdout_data_def fold_stdout_fields)
next
  case (Stderr_data ls)
  assume "timers_tracked s"
  then show ?thesis
    by (simp add: Stderr_data timers_tracked_def stderr_data_eq)
next
  case (Proc_error m)
  assume t: "timers_tracked s"
  show ?thesis
  proof (cases "process s")
    case None
    with t show ?thesis by (simp add: Proc_error)
  next
    case (Some p)
    with t have "pendingTimers s = []" by (simp add: timers_tracked_def)
    from proc_error_tracked [OF this] Some show ?thesis by (simp add: Proc_error)
  qed
next
  case (Proc_exit code sig)
  assume t: "timers_tracked s"
  show ?thesis
  proof (cases "process s")
    case None
    with t show ?thesis by (simp add: Proc_exit)
  next
    case (Some p)
    with t have "pendingTimers s = []" by (simp add: timers_tracked_def)
    from proc_exit_tracked [OF this] Some show ?thesis by (simp add: Proc_exit)
  qed
next
  case (Reconnect_timer t env)
  assume tr: "timers_tracked s"
  show ?thesis
  proof (cases "t \<in> set (pendingTimers s)")
    case False
    with tr show ?thesis by (simp add: Reconnect_timer)
  next
    case True
    let ?f = "emit (ReconnectTimerFired t) (s\<lparr>pendingTimers := removeAll t (pendingTimers s)\<rparr>)"
    from True tr have rt: "reconnectTimer s = Some t" and p: "process s = None"
      by (auto simp: timers_tracked_def)
    from tr rt have all: "\<forall>u \<in> set (pendingTimers s). u = t"
      by (auto simp: timers_tracked_def)
    have f: "process ?f = None" "\<forall>u \<in> set (pendingTimers ?f). reconnectTimer ?f = Some u"
      using p removeAll_all [OF all] by (simp_all add: emit_def)
    have "pendingTimers (clearReconnectTimer ?f) = []"
      by (rule clear_tracked [OF f(2)])
    with f(1) True show ?thesis
      by (simp add: Reconnect_timer timers_tracked_def start_timers)
  qed
next
  case Kill_timer
  assume "timers_tracked s"
  then show ?thesis
    by (simp add: Kill_timer timers_tracked_def kill_timeout_def emit_def)
qed

lemma tracked_run: "timers_tracked s \<Longrightarrow> timers_tracked (run es s)"
  unfolding run_def by (induction es arbitrary: s) (simp_all add: tracked_step)

lemma tracked_init: "timers_tracked init"
  by (simp add: timers_tracked_def init_def)

subsection \<open>After an intentional stop\<close>

lemma stop_trace:
  "trace (snd (stop s)) = trace s @ cancel_effects s
     @ (if process s = None then [Emit_log ''[GUI] FRP client is not running'']
        else [Emit_log ''[GUI] Stopping frpc...'', SetKillTimer 5000, Kill SIGTERM])"
  by (simp add: stop_def Let_def emit_def clear_fields cancel_effects_def)

lemma stop_result: "fst (stop s) = (if process s = None then Resolved True else Pending)"
  by (simp add: stop_def Let_def clear_fields)

lemma cancel_effects_filter:
  "filter is_spawn (cancel_effects s) = []" "filter is_automatic_start (cancel_effects s) = []"
  by (simp_all add: cancel_effects_def split: option.splits)

lemma stdout_filter:
  "filter is_spawn (trace (fold stdout_line ls s)) = filter is_spawn (trace s)"
  "filter is_automatic_start (trace (fold stdout_line ls s)) = filter is_automatic_start (trace s)"
  by (induction ls arbitrary: s)
     (simp_all add: stdout_line_def emit_def Let_def connected_notification_def)

lemma stderr_filter:
  "filter is_spawn (map (\<lambda>line. Emit_log (''[ERR] '' @ line)) ls) = []"
  "filter is_automatic_start (map (\<lambda>line. Emit_log (''[ERR] '' @ line)) ls) = []"
  by (induction ls) simp_all

lemma waiters_filter:
  "filter is_spawn (concat (replicate k [ClearKillTimer, Emit_status ''stopped'', Resolve True])) = []"
  "filter is_automatic_start
     (concat (replicate k [ClearKillTimer, Emit_status ''stopped'', Resolve True])) = []"
  by (induction k) simp_all

lemma exit_effects_filter:
  "filter is_spawn (exit_effects code sig conn) = []"
  "filter is_automatic_start (exit_effects code sig conn) = []"
  by (simp_all add: exit_effects_def disconnected_notification_def)

lemma quiet_step:
  assumes "quiet s" "\<not> is_manual_start e"
  shows "quiet (step e s)
     \<and> filter is_spawn (trace (step e s)) = filter is_spawn (trace s)
     \<and> filter is_automatic_start (trace (step e s)) = filter is_automatic_start (trace s)"
proof (cases e)
  case (Call_start env)
  with assms(2) show ?thesis by simp
next
  case Call_stop
  from assms(1) have "pendingTimers (clearReconnectTimer s) = []"
    by (intro clear_tracked) (simp add: quiet_def)
  then show ?thesis
    by (simp add: Call_stop quiet_def stop_timers stop_trace cancel_effects_filter)
next
  case (Call_setAutoReconnect b)
  with assms(1) show ?thesis
    by (simp add: quiet_def setAutoReconnect_def)
next
  case (Stdout_data ls)
  with assms(1) show ?thesis
    by (simp add: quiet_def stdout_data_def fold_stdout_fields stdout_filter)
next
  case (Stderr_data ls)
  with assms(1) show ?thesis
    by (simp add: quiet_def stderr_data_eq stderr_filter)
next
  case (Proc_error m)
  from assms(1) have "proc_error m s =
      s\<lparr>lastError := Some (''Failed to start frpc: '' @ m), process := None,
        trace := trace s @ [Emit_error (''Failed to start frpc: '' @ m), Emit_status ''stopped'']\<rparr>"
    unfolding proc_error_eq by (intro handleDisconnect_skip) (simp add: quiet_def)
  with assms(1) show ?thesis
    by (simp add: Proc_error quiet_def)
next
  case (Proc_exit code sig)
  from assms(1) have "start_on_exit code sig s =
      s\<lparr>lastError := (if code \<noteq> Some 0 \<and> code \<noteq> None
                          then Some (''frpc exited with code '' @ null_or num_to_string code)
                          else lastError s),
          process := None,
          trace := trace s @ exit_effects code sig (connected s)\<rparr>"
    unfolding start_on_exit_eq by (intro handleDisconnect_skip) (simp add: quiet_def)
  with assms(1) show ?thesis
    by (simp add: Proc_exit quiet_def proc_exit_def Let_def stop_on_exit_funpow
        exit_effects_filter waiters_filter)
next
  case (Reconnect_timer t env)
  with assms(1) show ?thesis
    by (simp add: quiet_def)
next
  case Kill_timer
  with assms(1) show ?thesis
    by (simp add: quiet_def kill_timeout_def emit_def)
qed

lemma quiet_run:
  "quiet s \<Longrightarrow> \<forall>e \<in> set es. \<not> is_manual_start e \<Longrightarrow>
     quiet (run es s)
     \<and> filter is_spawn (trace (run es s)) = filter is_spawn (trace s)
     \<and> filter is_automatic_start (trace (run es s)) = filter is_automatic_start (trace s)"
proof (induction es arbitrary: s)
  case Nil
  then show ?case by (simp add: run_def)
next
  case (Cons e es)
  from Cons.prems have e: "\<not> is_manual_start e" and es: "\<forall>e \<in> set es. \<not> is_manual_start e"
    by auto
  note st = quiet_step [OF Cons.prems(1) e]
  from st have q: "quiet (step e s)" by blast
  from Cons.IH [OF q es] st show ?case
    by (simp add: run_Cons)
qed

lemma stop_quiet: "timers_tracked s \<Longrightarrow> quiet (snd (stop s))"
  by (simp add: quiet_def stop_timers clear_tracked timers_tracked_def)

text \<open>
  C7. \<^const>\<open>stop\<close> sets the intentional-stop flag and clears the field of the reconnect
  timeout, and what it emits starts with the cancellation of the pending timeout, before
  the log line and, with a process, the kill timeout and the signal. Without a process it
  resolves to \<open>true\<close> at once and emits nothing but the cancellation and the log line
  \<open>FRP client is not running\<close>; no status event and no exit. In every state the manager
  can reach from its construction, \<^const>\<open>stop\<close> leaves the runtime without a reconnect timeout,
  and in every run that follows without a call of \<^verbatim>\<open>start()\<close> by the operator no reconnect
  timeout is pending, none fires and no process is spawned.
\<close>

theorem stop_cancels_reconnect:
  "intentionallyStopped (snd (stop s)) \<and> reconnectTimer (snd (stop s)) = None
   \<and> (process s = None \<longrightarrow>
        fst (stop s) = Resolved True \<and> process (snd (stop s)) = None
        \<and> trace (snd (stop s))
            = trace s @ cancel_effects s @ [Emit_log ''[GUI] FRP client is not running''])
   \<and> (process s \<noteq> None \<longrightarrow>
        fst (stop s) = Pending
        \<and> trace (snd (stop s))
            = trace s @ cancel_effects s
              @ [Emit_log ''[GUI] Stopping frpc...'', SetKillTimer 5000, Kill SIGTERM])
   \<and> (s = run es0 init \<and> (\<forall>e \<in> set es. \<not> is_manual_start e) \<longrightarrow>
        pendingTimers (snd (stop s)) = []
        \<and> pendingTimers (run es (snd (stop s))) = []
        \<and> filter is_automatic_start (trace (run es (snd (stop s))))
            = filter is_automatic_start (trace (snd (stop s)))
        \<and> filter is_spawn (trace (run es (snd (stop s))))
            = filter is_spawn (trace (snd (stop s))))"
proof (intro conjI impI)
  show "intentionallyStopped (snd (stop s))" "reconnectTimer (snd (stop s)) = None"
    by (simp_all add: stop_timers)
next
  assume "process s = None"
  then show "fst (stop s) = Resolved True" "process (snd (stop s)) = None"
    "trace (snd (stop s)) = trace s @ cancel_effects s @ [Emit_log ''[GUI] FRP client is not running'']"
    by (simp_all add: stop_result stop_timers stop_trace)
next
  assume "process s \<noteq> None"
  then show "fst (stop s) = Pending"
    "trace (snd (stop s)) = trace s @ cancel_effects s
              @ [Emit_log ''[GUI] Stopping frpc...'', SetKillTimer 5000, Kill SIGTERM]"
    by (simp_all add: stop_result stop_trace)
next
  assume h: "s = run es0 init \<and> (\<forall>e \<in> set es. \<not> is_manual_start e)"
  then have "timers_tracked s"
    using tracked_run [OF tracked_init] by simp
  then have q: "quiet (snd (stop s))"
    by (rule stop_quiet)
  from h have es: "\<forall>e \<in> set es. \<not> is_manual_start e" by simp
  note r = quiet_run [OF q es]
  show "pendingTimers (snd (stop s)) = []"
    using q by (simp add: quiet_def)
  show "pendingTimers (run es (snd (stop s))) = []"
    using r by (simp add: quiet_def)
  show "filter is_automatic_start (trace (run es (snd (stop s))))
            = filter is_automatic_start (trace (snd (stop s)))"
    using r by simp
  show "filter is_spawn (trace (run es (snd (stop s))))
            = filter is_spawn (trace (snd (stop s)))"
    using r by simp
qed

lemma pending_example:
  "run [Call_start (example_env (example_config [])), Proc_exit (Some 1) None] init
     = proc_exit (Some 1) None running"
proof -
  have "step (Proc_exit (Some 1) None) running = proc_exit (Some 1) None running"
    using running_fields(1) by auto
  then show ?thesis
    by (simp add: run_def running_def del: step.simps(7))
qed

theorem stop_cancels_reconnect_witness:
  "pendingTimers (run [Call_start (example_env (example_config [])), Proc_exit (Some 1) None] init) = [0]
   \<and> process (run [Call_start (example_env (example_config [])), Proc_exit (Some 1) None] init) = None
   \<and> \<not> is_manual_start (Reconnect_timer 0 (example_env (example_config [])))
   \<and> \<not> is_manual_start Kill_timer \<and> \<not> is_manual_start (Proc_exit (Some 1) None)
   \<and> fst (stop (run [Call_start (example_env (example_config [])), Proc_exit (Some 1) None] init))
       = Resolved True
   \<and> pendingTimers (snd (stop (run [Call_start (example_env (example_config [])),
                                     Proc_exit (Some 1) None] init))) = []
   \<and> filter is_spawn
        (trace (run [Reconnect_timer 0 (example_env (example_config [])), Kill_timer,
                     Proc_exit (Some 1) None]
                  (snd (stop (run [Call_start (example_env (example_config [])),
                                   Proc_exit (Some 1) None] init)))))
      = filter is_spawn
          (trace (snd (stop (run [Call_start (example_env (example_config [])),
                                  Proc_exit (Some 1) None] init))))"
proof -
  let ?hist = "[Call_start (example_env (example_config [])), Proc_exit (Some 1) None]"
  let ?cont = "[Reconnect_timer 0 (example_env (example_config [])), Kill_timer,
              Proc_exit (Some 1) None]"
  have "reconnectAttempts running < 5"
    by (simp add: running_fields)
  note x = proc_exit_retry [OF running_fields(2) running_fields(3) this, of "Some 1" None]
  have p: "pendingTimers (run ?hist init) = [0]" "process (run ?hist init) = None"
    using x by (simp_all add: pending_example running_fields)
  have h: "run ?hist init = run ?hist init \<and> (\<forall>e \<in> set ?cont. \<not> is_manual_start e)"
    by simp
  from stop_cancels_reconnect [of "run ?hist init" ?hist ?cont] p h
  show ?thesis by simp
qed

end
